theory Spec2Isabelle
  imports Main
begin

unbundle bit_operations_syntax

section \<open>Values, failures and printed output\<close>

text \<open>
  The client is Python 2 code. Its integers are unbounded, so bytes, command identifiers and
  status codes are all \<open>int\<close>; a \<open>bytearray\<close> is a list of them.
\<close>

type_synonym byte = int

text \<open>The values that end up in the dictionaries the client builds.\<close>

datatype pyval =
    PInt int
  | PStr string
  | PList "pyval list"
  | PDict "(string \<times> pyval) list"

text \<open>A Python \<open>dict\<close> with string keys, as an association list read through \<open>map_of\<close>.\<close>

type_synonym ret_dict = "(string \<times> pyval) list"

datatype py_exception = IndexError | KeyError | TypeError | AttributeError

text \<open>
  How a call ends when it does not return: \<open>fail(message)\<close> prints
  \<open>Error: message.\<close> and calls \<open>sys.exit(1)\<close>; an exception nobody catches
  unwinds the process; \<open>sys.exit(status)\<close> ends it with that status.
\<close>

datatype outcome =
    Fail string
  | Raise py_exception
  | Exit int

text \<open>
  What is written to standard output. A line whose text is fixed is \<open>Print\<close> of that
  text; a formatted line is a constructor of its own that carries the formatted values, in
  the order of the format string.
\<close>

datatype printed =
    Print string
  | Warning_sent_response int int
      \<comment> \<open>\<open>Warning: sent command %02x, response was %02x.\<close>\<close>
  | Unknown_response int
      \<comment> \<open>\<open>Unknown response %d from device.\<close>\<close>
  | Query_func ret_dict
      \<comment> \<open>the \<open>Func\<close> line of a query response: the current function and the state
          of the output\<close>
  | Query_param string pyval
      \<comment> \<open>the line of one item of \<open>params\<close>\<close>
  | Query_readings ret_dict
      \<comment> \<open>the three lines \<open>V_in\<close>, \<open>V_out\<close> and \<open>I_out\<close>\<close>
  | Query_temp string pyval
      \<comment> \<open>\<open>%-10s : %.1f\<close> for \<open>temp1\<close> or \<open>temp2\<close>\<close>
  | Functions_report "string list"
      \<comment> \<open>the sentence listing the supported functions\<close>
  | Parameters_report string "pyval list"
      \<comment> \<open>the sentence listing the parameters of the current function\<close>
  | Parameter_status string int
      \<comment> \<open>\<open>%s: %s\<close> with the text before the first \<open>=\<close> and the per-parameter status\<close>
  | Json_dumps "(string \<times> pyval) list"
      \<comment> \<open>\<open>json.dumps(_json, indent=4, sort_keys=True)\<close>\<close>
  | Communicating_with string
  | TX "byte list"
  | RX "byte list"
  | Warning_could_not_close string
  | Device_selected_chunk_size pyval
  | Download_progress nat nat
      \<comment> \<open>\<open>Download progress: %d%%\<close> of \<open>counter*1.0/len(content)*100.0\<close>, as the pair
          \<open>counter\<close>, \<open>len(content)\<close>\<close>

text \<open>Decimal rendering of an integer, as \<open>%d\<close> and \<open>%s\<close> produce it.\<close>

definition digit_char :: "nat \<Rightarrow> char" where
  "digit_char n = ''0123456789'' ! (n mod 10)"

function str_nat :: "nat \<Rightarrow> string" where
  "str_nat n = (if n < 10 then [digit_char n] else str_nat (n div 10) @ [digit_char n])"
  by pat_completeness auto
termination
  by (relation "measure id") auto

declare str_nat.simps [simp del]

definition str_int :: "int \<Rightarrow> string" where
  "str_int i = (if i < 0 then CHR ''-'' # str_nat (nat (- i)) else str_nat (nat i))"

section \<open>The command set and the collaborating modules\<close>

text \<open>
  \<open>from protocol import *\<close> brings the command identifiers, the response flag and the
  upgrade status codes into scope. That module is not part of the sources at hand, so the
  constants are a parameter of every definition that reads them.
\<close>

record protocol =
  cmd_ping :: int
  cmd_query :: int
  cmd_lock :: int
  cmd_upgrade_start :: int
  cmd_upgrade_data :: int
  cmd_set_function :: int
  cmd_enable_output :: int
  cmd_list_functions :: int
  cmd_set_parameters :: int
  cmd_list_parameters :: int
  cmd_temperature_report :: int
  cmd_cal_report :: int
  cmd_set_calibration :: int
  cmd_init :: int
  cmd_response :: int
  upgrade_continue :: int
  upgrade_crc_error :: int
  upgrade_erase_error :: int
  upgrade_flash_error :: int
  upgrade_overflow_error :: int
  upgrade_success :: int

text \<open>
  A received frame after \<open>set_frame\<close>: the unescaped content, command byte first, and the
  position of the sequential reader.
\<close>

record uFrame =
  frame_bytes :: "byte list"
  unpack_pos :: nat

definition get_frame :: "uFrame \<Rightarrow> byte list" where
  "get_frame f = frame_bytes f"

text \<open>
  Modelled from the spec: the typed reads of the \<open>uframe\<close> module, which is not part of the
  sources at hand. Each read takes its bytes at the cursor and advances it; a read that would
  pass the end of the content raises. The 16-bit read takes the high byte first, and text
  runs up to a zero terminator, which is consumed.
\<close>

definition unpack8 :: "uFrame \<Rightarrow> py_exception + (int \<times> uFrame)" where
  "unpack8 f =
     (if unpack_pos f < length (frame_bytes f)
      then Inr (frame_bytes f ! unpack_pos f, f\<lparr>unpack_pos := unpack_pos f + 1\<rparr>)
      else Inl IndexError)"

definition unpacks8 :: "uFrame \<Rightarrow> py_exception + (int \<times> uFrame)" where
  "unpacks8 f =
     (case unpack8 f of
        Inl e \<Rightarrow> Inl e
      | Inr (b, f') \<Rightarrow> Inr (if b \<ge> 128 then b - 256 else b, f'))"

definition unpack16 :: "uFrame \<Rightarrow> py_exception + (int \<times> uFrame)" where
  "unpack16 f =
     (case unpack8 f of
        Inl e \<Rightarrow> Inl e
      | Inr (hi, f') \<Rightarrow>
          (case unpack8 f' of
             Inl e \<Rightarrow> Inl e
           | Inr (lo, f'') \<Rightarrow> Inr (hi * 256 + lo, f'')))"

definition unpack_cstr :: "uFrame \<Rightarrow> py_exception + (string \<times> uFrame)" where
  "unpack_cstr f =
     (let rest = drop (unpack_pos f) (frame_bytes f);
          s = takeWhile (\<lambda>b. b \<noteq> 0) rest
      in if length s < length rest
         then Inr (map char_of s, f\<lparr>unpack_pos := unpack_pos f + length s + 1\<rparr>)
         else Inl IndexError)"

definition eof :: "uFrame \<Rightarrow> bool" where
  "eof f = (unpack_pos f \<ge> length (frame_bytes f))"

text \<open>
  The other functions the client imports: the two response decoders and the two frame
  builders of \<open>protocol\<close>, \<open>uFrame.set_frame\<close> (its result code and the content it leaves
  in the frame), the CRC of \<open>PyCRC\<close>, and the framing bytes \<open>uframe._SOF\<close> and
  \<open>uframe._EOF\<close>. None of them can call \<open>fail\<close>, which belongs to the client; a decoder
  that does not return raises.
\<close>

record externals =
  unpack_cal_report :: "uFrame \<Rightarrow> py_exception + ret_dict"
  unpack_query_response :: "uFrame \<Rightarrow> py_exception + ret_dict"
  create_upgrade_start :: "int \<Rightarrow> int \<Rightarrow> byte list"
  create_upgrade_data :: "byte list \<Rightarrow> byte list"
  set_frame :: "byte list \<Rightarrow> int \<times> byte list"
  crc_ccitt :: "byte list \<Rightarrow> int"
  uframe_SOF :: int
  uframe_EOF :: int

text \<open>The command-line switches the protocol engine reads.\<close>

record args =
  json :: bool
  verbose :: bool
  force :: bool
  parameter :: "string list option"

section \<open>Decoding a response\<close>

definition dict_get :: "(string \<times> pyval) list \<Rightarrow> string \<Rightarrow> py_exception + pyval" where
  "dict_get d k = (case map_of d k of None \<Rightarrow> Inl KeyError | Some v \<Rightarrow> Inr v)"

fun dict_set :: "string \<Rightarrow> pyval \<Rightarrow> (string \<times> pyval) list \<Rightarrow> (string \<times> pyval) list" where
  "dict_set k v [] = [(k, v)]"
| "dict_set k v (p # ps) = (if fst p = k then (k, v) # ps else p # dict_set k v ps)"

definition truthy :: "pyval \<Rightarrow> bool" where
  "truthy v = (case v of PInt i \<Rightarrow> i \<noteq> 0 | PStr s \<Rightarrow> s \<noteq> [] | PList l \<Rightarrow> l \<noteq> [] | PDict d \<Rightarrow> d \<noteq> [])"

definition as_int :: "pyval \<Rightarrow> py_exception + int" where
  "as_int v = (case v of PInt i \<Rightarrow> Inr i | _ \<Rightarrow> Inl TypeError)"

text \<open>\<open>unit_name\<close> and \<open>prefix_name\<close>, as the client defines them.\<close>

definition unit_name :: "int \<Rightarrow> string" where
  "unit_name unit =
     (if unit = 0 then ''A''
      else if unit = 1 then ''V''
      else if unit = 2 then ''W''
      else if unit = 3 then ''s''
      else if unit = 4 then ''Hz''
      else ''unknown'')"

definition prefix_name :: "int \<Rightarrow> string" where
  "prefix_name prefix =
     (if prefix = - 6 then ''u''
      else if prefix = - 3 then ''m''
      else if prefix = - 2 then ''c''
      else if prefix = - 1 then ''d''
      else if prefix = 0 then []
      else if prefix = 1 then ''D''
      else if prefix = 2 then ''hg''
      else if prefix = 3 then ''k''
      else if prefix = 4 then ''M''
      else CHR ''e'' # str_int prefix)"

text \<open>
  What one branch of the dispatch leaves behind: the lines it printed and, unless it raised,
  the result dictionary together with the \<open>_json\<close> dictionary.
\<close>

type_synonym branch = "printed list \<times> (outcome + (ret_dict \<times> (string \<times> pyval) list))"

text \<open>
  The query branch. The four strings built from the response need their keys
  (\<open>temp_shutdown\<close> only when the output is not enabled) and integer readings.
\<close>

definition query_strings :: "ret_dict \<Rightarrow> py_exception + unit" where
  "query_strings rd =
     (case dict_get rd ''output_enabled'' of
        Inl e \<Rightarrow> Inl e
      | Inr en \<Rightarrow>
          (case (if truthy en then Inr en else dict_get rd ''temp_shutdown'') of
             Inl e \<Rightarrow> Inl e
           | Inr _ \<Rightarrow>
               (case dict_get rd ''v_in'' of
                  Inl e \<Rightarrow> Inl e
                | Inr v_in \<Rightarrow>
                    (case as_int v_in of
                       Inl e \<Rightarrow> Inl e
                     | Inr _ \<Rightarrow>
                         (case dict_get rd ''v_out'' of
                            Inl e \<Rightarrow> Inl e
                          | Inr v_out \<Rightarrow>
                              (case as_int v_out of
                                 Inl e \<Rightarrow> Inl e
                               | Inr _ \<Rightarrow>
                                   (case dict_get rd ''i_out'' of
                                      Inl e \<Rightarrow> Inl e
                                    | Inr i_out \<Rightarrow>
                                        (case as_int i_out of
                                           Inl e \<Rightarrow> Inl e
                                         | Inr _ \<Rightarrow> Inr ()))))))))"

text \<open>
  A temperature line is printed when the key is present; \<open>%.1f\<close> needs a number.
\<close>

definition query_temp :: "ret_dict \<Rightarrow> string \<Rightarrow> printed list \<times> py_exception option" where
  "query_temp rd k =
     (case map_of rd k of
        None \<Rightarrow> ([], None)
      | Some v \<Rightarrow> (case v of PInt i \<Rightarrow> ([Query_temp k v], None) | _ \<Rightarrow> ([], Some TypeError)))"

text \<open>
  The report printed when neither \<open>args.json\<close> nor \<open>quiet\<close> is set, line by line: the
  \<open>Func\<close> line reads \<open>cur_func\<close> before it prints, the loop over
  \<open>params.iteritems()\<close> comes after that line, then the readings and the temperatures.
  The result is what was printed and the exception that cut the report short, if any. The
  items of \<open>params\<close> come in the order of the association list.
\<close>

definition query_report :: "ret_dict \<Rightarrow> printed list \<times> py_exception option" where
  "query_report rd =
     (case dict_get rd ''cur_func'' of
        Inl e \<Rightarrow> ([], Some e)
      | Inr cur_func \<Rightarrow>
          (case dict_get rd ''params'' of
             Inl e \<Rightarrow> ([Query_func rd], Some e)
           | Inr params \<Rightarrow>
               (case params of
                  PDict ps \<Rightarrow>
                    (let out = [Query_func rd] @ map (\<lambda>(key, v). Query_param key v) ps
                                 @ [Query_readings rd]
                     in case query_temp rd ''temp1'' of
                          (t1, Some e) \<Rightarrow> (out @ t1, Some e)
                        | (t1, None) \<Rightarrow>
                            (case query_temp rd ''temp2'' of
                               (t2, r) \<Rightarrow> (out @ t1 @ t2, r)))
                | _ \<Rightarrow> ([Query_func rd], Some AttributeError))))"

definition response_query ::
  "externals \<Rightarrow> uFrame \<Rightarrow> args \<Rightarrow> bool \<Rightarrow> (string \<times> pyval) list \<Rightarrow> branch" where
  "response_query X frame a quiet js =
     (case unpack_query_response X frame of
        Inl e \<Rightarrow> ([], Inl (Raise e))
      | Inr rd \<Rightarrow>
          (case query_strings rd of
             Inl e \<Rightarrow> ([], Inl (Raise e))
           | Inr _ \<Rightarrow>
               if json a then ([], Inr (rd, rd))
               else if quiet then ([], Inr (rd, js))
               else (case query_report rd of
                       (out, Some e) \<Rightarrow> (out, Inl (Raise e))
                     | (out, None) \<Rightarrow> (out, Inr (rd, js)))))"

definition response_upgrade_start :: "uFrame \<Rightarrow> (string \<times> pyval) list \<Rightarrow> branch" where
  "response_upgrade_start frame js =
     (case unpack8 frame of
        Inl e \<Rightarrow> ([], Inl (Raise e))
      | Inr (cmd, f1) \<Rightarrow>
          (case unpack8 f1 of
             Inl e \<Rightarrow> ([], Inl (Raise e))
           | Inr (status, f2) \<Rightarrow>
               (case unpack16 f2 of
                  Inl e \<Rightarrow> ([], Inl (Raise e))
                | Inr (chunk_size, f3) \<Rightarrow>
                    ([], Inr ([(''status'', PInt status), (''chunk_size'', PInt chunk_size)], js)))))"

definition response_upgrade_data :: "uFrame \<Rightarrow> (string \<times> pyval) list \<Rightarrow> branch" where
  "response_upgrade_data frame js =
     (case unpack8 frame of
        Inl e \<Rightarrow> ([], Inl (Raise e))
      | Inr (cmd, f1) \<Rightarrow>
          (case unpack8 f1 of
             Inl e \<Rightarrow> ([], Inl (Raise e))
           | Inr (status, f2) \<Rightarrow> ([], Inr ([(''status'', PInt status)], js))))"

definition response_set_function :: "uFrame \<Rightarrow> bool \<Rightarrow> (string \<times> pyval) list \<Rightarrow> branch" where
  "response_set_function frame quiet js =
     (case unpack8 frame of
        Inl e \<Rightarrow> ([], Inl (Raise e))
      | Inr (cmd, f1) \<Rightarrow>
          (case unpack8 f1 of
             Inl e \<Rightarrow> ([], Inl (Raise e))
           | Inr (status, f2) \<Rightarrow>
               (if quiet then []
                else if status = 0 then [Print ''Function does not exist.'']
                else [Print ''Changed function.''],
                Inr ([], js))))"

text \<open>A successful read never moves the cursor back, and never past the end of the content.\<close>

lemma unpack8_advances:
  assumes "unpack8 f = Inr (b, f')"
  shows "frame_bytes f' = frame_bytes f \<and> unpack_pos f' = unpack_pos f + 1
         \<and> unpack_pos f' \<le> length (frame_bytes f)"
  using assms by (auto simp: unpack8_def split: if_splits)

lemma unpacks8_advances:
  assumes "unpacks8 f = Inr (b, f')"
  shows "frame_bytes f' = frame_bytes f \<and> unpack_pos f' = unpack_pos f + 1
         \<and> unpack_pos f' \<le> length (frame_bytes f)"
  using assms
  by (auto simp: unpacks8_def split: sum.splits prod.splits dest: unpack8_advances)

lemma unpack_cstr_advances:
  assumes "unpack_cstr f = Inr (s, f')"
  shows "frame_bytes f' = frame_bytes f \<and> unpack_pos f < unpack_pos f'
         \<and> unpack_pos f' \<le> length (frame_bytes f)"
  using assms by (auto simp: unpack_cstr_def Let_def split: if_splits)

text \<open>
  The loop of the list-functions branch: names are read until an empty one.
\<close>

function unpack_functions :: "uFrame \<Rightarrow> string list \<Rightarrow> py_exception + string list" where
  "unpack_functions f functions =
     (case unpack_cstr f of
        Inl e \<Rightarrow> Inl e
      | Inr (name, f') \<Rightarrow>
          if name \<noteq> [] then unpack_functions f' (functions @ [name]) else Inr functions)"
  by pat_completeness auto
termination
proof (relation "measure (\<lambda>(f, fs). length (frame_bytes f) - unpack_pos f)")
  show "wf (measure (\<lambda>(f, fs). length (frame_bytes f) - unpack_pos f))"
    by simp
next
  fix f :: uFrame and fs :: "string list" and x2 name f'
  assume "unpack_cstr f = Inr x2" and "(name, f') = x2"
  then have "unpack_cstr f = Inr (name, f')"
    by simp
  from unpack_cstr_advances [OF this]
  show "((f', fs @ [name]), (f, fs))
        \<in> measure (\<lambda>(f, fs). length (frame_bytes f) - unpack_pos f)"
    by auto
qed

declare unpack_functions.simps [simp del]

definition response_list_functions :: "uFrame \<Rightarrow> args \<Rightarrow> (string \<times> pyval) list \<Rightarrow> branch" where
  "response_list_functions frame a js =
     (case unpack8 frame of
        Inl e \<Rightarrow> ([], Inl (Raise e))
      | Inr (cmd, f1) \<Rightarrow>
          (case unpack8 f1 of
             Inl e \<Rightarrow> ([], Inl (Raise e))
           | Inr (status, f2) \<Rightarrow>
               if status = 0 then ([Print ''Error, failed to list available functions''], Inr ([], js))
               else (case unpack_functions f2 [] of
                       Inl e \<Rightarrow> ([], Inl (Raise e))
                     | Inr functions \<Rightarrow>
                         if json a
                         then ([], Inr ([], dict_set ''functions'' (PList (map PStr functions)) js))
                         else ([Functions_report functions], Inr ([], js)))))"

text \<open>
  The loop of the set-parameters branch: one status byte per parameter given on the command
  line, reported under the text before the first \<open>=\<close>.
\<close>

fun unpack_parameter_status ::
  "uFrame \<Rightarrow> bool \<Rightarrow> string list \<Rightarrow> printed list \<times> py_exception option" where
  "unpack_parameter_status f quiet [] = ([], None)"
| "unpack_parameter_status f quiet (p # ps) =
     (case unpack8 f of
        Inl e \<Rightarrow> ([], Some e)
      | Inr (status, f') \<Rightarrow>
          (let line = (if quiet then []
                       else [Parameter_status (takeWhile (\<lambda>c. c \<noteq> CHR ''='') p) status]);
               (out, r) = unpack_parameter_status f' quiet ps
           in (line @ out, r)))"

definition response_set_parameters ::
  "uFrame \<Rightarrow> args \<Rightarrow> bool \<Rightarrow> (string \<times> pyval) list \<Rightarrow> branch" where
  "response_set_parameters frame a quiet js =
     (case unpack8 frame of
        Inl e \<Rightarrow> ([], Inl (Raise e))
      | Inr (cmd, f1) \<Rightarrow>
          (case unpack8 f1 of
             Inl e \<Rightarrow> ([], Inl (Raise e))
           | Inr (status, f2) \<Rightarrow>
               (case parameter a of
                  None \<Rightarrow> ([], Inl (Raise TypeError))
                | Some ps \<Rightarrow>
                    (case unpack_parameter_status f2 quiet ps of
                       (out, Some e) \<Rightarrow> (out, Inl (Raise e))
                     | (out, None) \<Rightarrow> (out, Inr ([], js))))))"

text \<open>
  The loop of the list-parameters branch: name, unit and prefix until the content is used up.
\<close>

function unpack_parameters :: "uFrame \<Rightarrow> pyval list \<Rightarrow> py_exception + pyval list" where
  "unpack_parameters f parameters =
     (if eof f then Inr parameters
      else (case unpack_cstr f of
              Inl e \<Rightarrow> Inl e
            | Inr (name, f1) \<Rightarrow>
                (case unpack8 f1 of
                   Inl e \<Rightarrow> Inl e
                 | Inr (unit, f2) \<Rightarrow>
                     (case unpacks8 f2 of
                        Inl e \<Rightarrow> Inl e
                      | Inr (prefix, f3) \<Rightarrow>
                          unpack_parameters f3
                            (parameters @
                              [PDict [(''name'', PStr name),
                                      (''unit'', PStr (unit_name unit)),
                                      (''prefix'', PStr (prefix_name prefix))]])))))"
  by pat_completeness auto
termination
proof (relation "measure (\<lambda>(f, ps). length (frame_bytes f) - unpack_pos f)")
  show "wf (measure (\<lambda>(f, ps). length (frame_bytes f) - unpack_pos f))"
    by simp
next
  fix f :: uFrame and parameters :: "pyval list"
    and x2 name f1 x2a unit f2 x2b prefix f3
  assume "unpack_cstr f = Inr x2" and "(name, f1) = x2"
    and "unpack8 f1 = Inr x2a" and "(unit, f2) = x2a"
    and "unpacks8 f2 = Inr x2b" and "(prefix, f3) = x2b"
  then have a: "unpack_cstr f = Inr (name, f1)" and b: "unpack8 f1 = Inr (unit, f2)"
    and c: "unpacks8 f2 = Inr (prefix, f3)"
    by simp_all
  from unpack_cstr_advances [OF a] unpack8_advances [OF b] unpacks8_advances [OF c]
  show "((f3, parameters @
            [PDict [(''name'', PStr name), (''unit'', PStr (unit_name unit)),
                    (''prefix'', PStr (prefix_name prefix))]]), (f, parameters))
        \<in> measure (\<lambda>(f, ps). length (frame_bytes f) - unpack_pos f)"
    by auto
qed

declare unpack_parameters.simps [simp del]

definition response_list_parameters :: "uFrame \<Rightarrow> args \<Rightarrow> (string \<times> pyval) list \<Rightarrow> branch" where
  "response_list_parameters frame a js =
     (case unpack8 frame of
        Inl e \<Rightarrow> ([], Inl (Raise e))
      | Inr (cmd, f1) \<Rightarrow>
          (case unpack8 f1 of
             Inl e \<Rightarrow> ([], Inl (Raise e))
           | Inr (status, f2) \<Rightarrow>
               if status = 0 then ([Print ''Error, failed to list available parameters''], Inr ([], js))
               else (case unpack_cstr f2 of
                       Inl e \<Rightarrow> ([], Inl (Raise e))
                     | Inr (cur_func, f3) \<Rightarrow>
                         (case unpack_parameters f3 [] of
                            Inl e \<Rightarrow> ([], Inl (Raise e))
                          | Inr parameters \<Rightarrow>
                              if json a
                              then ([], Inr ([], dict_set ''parameters'' (PList parameters)
                                                  (dict_set ''current_function'' (PStr cur_func) js)))
                              else ([Parameters_report cur_func parameters], Inr ([], js))))))"

definition response_enable_output :: "uFrame \<Rightarrow> (string \<times> pyval) list \<Rightarrow> branch" where
  "response_enable_output frame js =
     (case unpack8 frame of
        Inl e \<Rightarrow> ([], Inl (Raise e))
      | Inr (cmd, f1) \<Rightarrow>
          (case unpack8 f1 of
             Inl e \<Rightarrow> ([], Inl (Raise e))
           | Inr (status, f2) \<Rightarrow>
               (if status = 0 then [Print ''Error, failed to enable/disable output.''] else [],
                Inr ([], js))))"

text \<open>
  The \<open>if\<close>/\<open>elif\<close> chain of \<open>handle_response\<close>, from the setting up of \<open>_json\<close>
  to the \<open>return\<close>: it selects the decoder by \<open>resp_command\<close> alone.
\<close>

definition handle_response_branch ::
  "protocol \<Rightarrow> externals \<Rightarrow> int \<Rightarrow> uFrame \<Rightarrow> args \<Rightarrow> bool \<Rightarrow> (string \<times> pyval) list \<Rightarrow> branch" where
  "handle_response_branch P X resp_command frame a quiet js =
     (if resp_command = cmd_ping P then ([Print ''Got pong from device''], Inr ([], js))
      else if resp_command = cmd_cal_report P then
        (case unpack_cal_report X frame of
           Inl e \<Rightarrow> ([], Inl (Raise e))
         | Inr rd \<Rightarrow> ([], Inr (rd, js)))
      else if resp_command = cmd_query P then response_query X frame a quiet js
      else if resp_command = cmd_upgrade_start P then response_upgrade_start frame js
      else if resp_command = cmd_upgrade_data P then response_upgrade_data frame js
      else if resp_command = cmd_set_function P then response_set_function frame quiet js
      else if resp_command = cmd_list_functions P then response_list_functions frame a js
      else if resp_command = cmd_set_parameters P then response_set_parameters frame a quiet js
      else if resp_command = cmd_list_parameters P then response_list_parameters frame a js
      else if resp_command = cmd_enable_output P then response_enable_output frame js
      else if resp_command = cmd_temperature_report P then ([], Inr ([], js))
      else if resp_command = cmd_lock P then ([], Inr ([], js))
      else if resp_command = cmd_set_calibration P then ([], Inr ([], js))
      else if resp_command = cmd_init P then ([], Inr ([], js))
      else ([Unknown_response resp_command], Inr ([], js)))"

definition handle_response_dispatch ::
  "protocol \<Rightarrow> externals \<Rightarrow> int \<Rightarrow> uFrame \<Rightarrow> args \<Rightarrow> bool
     \<Rightarrow> printed list \<times> (outcome + ret_dict)" where
  "handle_response_dispatch P X resp_command frame a quiet =
     (let js = (if json a then [(''cmd'', PInt resp_command), (''status'', PInt 1)] else [])
      in case handle_response_branch P X resp_command frame a quiet js of
           (out, Inl e) \<Rightarrow> (out, Inl e)
         | (out, Inr (ret_dict, js')) \<Rightarrow>
             (out @ (if json a then [Json_dumps js'] else []), Inr ret_dict))"

text \<open>
  \<open>handle_response(command, frame, args, quiet)\<close>. The result is what was printed and
  either the way the call ended or the dictionary it returned.
\<close>

definition handle_response ::
  "protocol \<Rightarrow> externals \<Rightarrow> int \<Rightarrow> uFrame \<Rightarrow> args \<Rightarrow> bool
     \<Rightarrow> printed list \<times> (outcome + ret_dict)" where
  "handle_response P X command frame a quiet =
     (if length (get_frame frame) < 1 then ([], Inl (Raise IndexError))
      else
        (let resp_command = get_frame frame ! 0 in
         if resp_command AND cmd_response P \<noteq> 0 then
           (let resp_command = resp_command XOR cmd_response P in
            if length (get_frame frame) < 2 then ([], Inl (Raise IndexError))
            else
              (let success = get_frame frame ! 1;
                   warning = (if resp_command \<noteq> command
                              then [Warning_sent_response command resp_command] else [])
               in if resp_command \<noteq> cmd_upgrade_start P \<and> resp_command \<noteq> cmd_upgrade_data P
                     \<and> success = 0
                  then (warning, Inl (Fail ''command failed according to device''))
                  else (case handle_response_dispatch P X resp_command frame a quiet of
                          (out, r) \<Rightarrow> (warning @ out, r))))
         else handle_response_dispatch P X resp_command frame a quiet))"

section \<open>One exchange with the device\<close>

text \<open>
  A communication interface together with the peer behind it. The client only uses
  \<open>open\<close>, \<open>write\<close>, \<open>read\<close>, \<open>close\<close> and the name, whatever the variant, so the
  interface is given by what those calls return: \<open>open_result\<close> and \<open>write_result\<close>
  are the values of \<open>open()\<close> and \<open>write(bytes)\<close>, \<open>inbox\<close> holds what the following
  calls of \<open>read()\<close> return (an empty \<open>inbox\<close> is a timeout: \<open>read()\<close> returns no
  bytes). \<open>outbox\<close> records the frames written, \<open>is_open\<close> whether the handle is open and
  \<open>closes\<close> how often \<open>close()\<close> has been called.
\<close>

record comm_interface =
  if_name :: string
  open_result :: bool
  write_result :: bool
  inbox :: "byte list list"
  outbox :: "byte list list"
  is_open :: bool
  closes :: nat

definition comm_open :: "comm_interface \<Rightarrow> bool \<times> comm_interface" where
  "comm_open c = (open_result c, c\<lparr>is_open := open_result c\<rparr>)"

definition comm_close :: "comm_interface \<Rightarrow> bool \<times> comm_interface" where
  "comm_close c = (True, c\<lparr>is_open := False, closes := closes c + 1\<rparr>)"

definition comm_write :: "comm_interface \<Rightarrow> byte list \<Rightarrow> bool \<times> comm_interface" where
  "comm_write c bytes =
     (write_result c, if write_result c then c\<lparr>outbox := outbox c @ [bytes]\<rparr> else c)"

definition comm_read :: "comm_interface \<Rightarrow> byte list \<times> comm_interface" where
  "comm_read c = (case inbox c of [] \<Rightarrow> ([], c) | r # rs \<Rightarrow> (r, c\<lparr>inbox := rs\<rparr>))"

text \<open>
  \<open>communicate(comms, frame, args, quiet)\<close>, with the request given by the bytes of
  \<open>frame.get_frame()\<close>. The state it leaves is the interface and what was printed.

  The test before the warning reads the attribute \<open>comms.close\<close>: a bound method, which is
  true as a condition. It calls nothing, so \<open>comm_close\<close> does not occur below.
\<close>

definition comms_close_attribute :: "comm_interface \<Rightarrow> bool" where
  "comms_close_attribute c = True"

definition communicate ::
  "protocol \<Rightarrow> externals \<Rightarrow> comm_interface option \<Rightarrow> byte list \<Rightarrow> args \<Rightarrow> bool
     \<Rightarrow> (comm_interface option \<times> printed list) \<times> (outcome + ret_dict)" where
  "communicate P X comms frame a quiet =
     (case comms of
        None \<Rightarrow> ((None, []), Inl (Fail ''no communication interface specified''))
      | Some c0 \<Rightarrow>
          (let (opened, c1) = comm_open c0 in
           if \<not> opened then ((Some c1, []), Inl (Fail (''could not open '' @ if_name c1)))
           else
             (let out1 = (if verbose a then [Communicating_with (if_name c1), TX frame] else []);
                  (written, c2) = comm_write c1 frame
              in if \<not> written then ((Some c2, out1), Inl (Fail (''write failed on '' @ if_name c2)))
                 else
                   (let (resp, c3) = comm_read c2 in
                    if length resp = 0
                    then ((Some c3, out1), Inl (Fail (''timeout talking to device '' @ if_name c3)))
                    else
                      (let out2 = out1 @ (if verbose a then [RX resp] else []);
                           out3 = out2 @ (if \<not> comms_close_attribute c3
                                          then [Warning_could_not_close (if_name c3)] else []);
                           (res, content) = set_frame X resp
                       in if res < 0
                          then ((Some c3, out3),
                                Inl (Fail (''protocol error ('' @ str_int res @ '')'')))
                          else if length frame < 2 then ((Some c3, out3), Inl (Raise IndexError))
                          else
                            (case handle_response P X (frame ! 1)
                                    \<lparr>frame_bytes = content, unpack_pos = 0\<rparr> a quiet of
                               (out4, r) \<Rightarrow> ((Some c3, out3 @ out4), r)))))))"

section \<open>The firmware upgrade\<close>

text \<open>
  \<open>chunk_from_file(filename, chunk_size)\<close> on a file with the given content: the chunks
  \<open>f.read(chunk_size)\<close> returns, up to the first empty one.
\<close>

function chunk_from_file :: "byte list \<Rightarrow> nat \<Rightarrow> byte list list" where
  "chunk_from_file content chunk_size =
     (let chunk = take chunk_size content in
      if chunk \<noteq> [] then chunk # chunk_from_file (drop chunk_size content) chunk_size
      else [])"
  by pat_completeness auto
termination
  by (relation "measure (\<lambda>(content, chunk_size). length content)") (auto simp: Let_def)

declare chunk_from_file.simps [simp del]

text \<open>\<open>content.encode('hex')\<close>: two lower-case hexadecimal digits for every byte.\<close>

definition hex_digit :: "int \<Rightarrow> char" where
  "hex_digit d = ''0123456789abcdef'' ! nat (d mod 16)"

definition encode_hex :: "byte list \<Rightarrow> string" where
  "encode_hex content = concat (map (\<lambda>b. [hex_digit (b div 16), hex_digit (b mod 16)]) content)"

text \<open>
  The loop over the chunks in \<open>run_upgrade\<close>. \<open>content_len\<close> is \<open>len(content)\<close> and
  \<open>counter\<close> the bytes handed over so far. Leaving the loop leads to
  \<open>sys.exit(os.EX_OK)\<close>.
\<close>

fun upgrade_loop ::
  "protocol \<Rightarrow> externals \<Rightarrow> args \<Rightarrow> nat \<Rightarrow> byte list list \<Rightarrow> nat \<Rightarrow> comm_interface option
     \<Rightarrow> (comm_interface option \<times> printed list) \<times> outcome" where
  "upgrade_loop P X a content_len [] counter comms = ((comms, []), Exit 0)"
| "upgrade_loop P X a content_len (chunk # chunks) counter comms =
     (let counter = counter + length chunk;
          out1 = [Download_progress counter content_len]
      in case communicate P X comms (create_upgrade_data X chunk) a False of
           ((comms', out2), Inl e) \<Rightarrow> ((comms', out1 @ out2), e)
         | ((comms', out2), Inr ret_dict) \<Rightarrow>
             (case dict_get ret_dict ''status'' of
                Inl e \<Rightarrow> ((comms', out1 @ out2), Raise e)
              | Inr status \<Rightarrow>
                  if status = PInt (upgrade_continue P) then
                    (case upgrade_loop P X a content_len chunks counter comms' of
                       ((comms'', out3), r) \<Rightarrow> ((comms'', out1 @ out2 @ out3), r))
                  else if status = PInt (upgrade_crc_error P) then
                    ((comms', out1 @ out2 @ [Print []]), Fail ''device reported CRC error'')
                  else if status = PInt (upgrade_erase_error P) then
                    ((comms', out1 @ out2 @ [Print []]), Fail ''device reported erasing error'')
                  else if status = PInt (upgrade_flash_error P) then
                    ((comms', out1 @ out2 @ [Print []]), Fail ''device reported flashing error'')
                  else if status = PInt (upgrade_overflow_error P) then
                    ((comms', out1 @ out2 @ [Print []]),
                     Fail ''device reported firmware overflow error'')
                  else if status = PInt (upgrade_success P) then
                    (case upgrade_loop P X a content_len chunks counter comms' of
                       ((comms'', out3), r) \<Rightarrow> ((comms'', out1 @ out2 @ [Print []] @ out3), r))
                  else
                    (case as_int status of
                       Inl e \<Rightarrow> ((comms', out1 @ out2 @ [Print []]), Raise e)
                     | Inr s \<Rightarrow>
                         ((comms', out1 @ out2 @ [Print []]),
                          Fail (''device reported an unknown error ('' @ str_int s @ '')'')))))"

text \<open>
  \<open>run_upgrade(comms, fw_file_name, args)\<close> on a firmware file with the given content.
  Every path ends the process, so the result is the state left and the way it ended.
\<close>

definition run_upgrade ::
  "protocol \<Rightarrow> externals \<Rightarrow> comm_interface option \<Rightarrow> byte list \<Rightarrow> args
     \<Rightarrow> (comm_interface option \<times> printed list) \<times> outcome" where
  "run_upgrade P X comms content a =
     (if take 2 (drop 6 (encode_hex content)) \<noteq> ''20'' \<and> \<not> force a
      then ((comms, []),
            Fail ''The firmware file does not seem valid, use --force to force upgrade'')
      else
        (let crc = crc_ccitt X content;
             chunk_size = 1024
         in case communicate P X comms (create_upgrade_start X (int chunk_size) crc) a False of
              ((comms', out1), Inl e) \<Rightarrow> ((comms', out1), e)
            | ((comms', out1), Inr ret_dict) \<Rightarrow>
                (case dict_get ret_dict ''status'' of
                   Inl e \<Rightarrow> ((comms', out1), Raise e)
                 | Inr status \<Rightarrow>
                     if status = PInt (upgrade_continue P) then
                       (case dict_get ret_dict ''chunk_size'' of
                          Inl e \<Rightarrow> ((comms', out1), Raise e)
                        | Inr device_chunk_size \<Rightarrow>
                            (let out2 = (if PInt (int chunk_size) \<noteq> device_chunk_size
                                         then [Device_selected_chunk_size device_chunk_size]
                                         else [])
                             in case upgrade_loop P X a (length content)
                                       (chunk_from_file content chunk_size) 0 comms' of
                                  ((comms'', out3), r) \<Rightarrow> ((comms'', out1 @ out2 @ out3), r)))
                     else ((comms', out1), Fail ''Device rejected firmware upgrade''))))"

section \<open>Reading one frame from the serial port\<close>

text \<open>
  The serial port as \<open>tty_interface.read\<close> sees it: the result of each successive call
  \<open>self._port_handle.read(1)\<close>, a byte or nothing when the read timed out. The loop has no
  bound of its own: on a port that keeps delivering bytes other than the end marker it
  never returns, which is the value \<open>None\<close> here.
\<close>

type_synonym serial_port = "nat \<Rightarrow> byte option"

partial_function (option) tty_read_loop ::
  "int \<Rightarrow> int \<Rightarrow> serial_port \<Rightarrow> nat \<Rightarrow> byte list \<Rightarrow> bool \<Rightarrow> byte list option" where
  "tty_read_loop SOF EOF port i bytes sof =
     (case port i of
        None \<Rightarrow> Some bytes
      | Some b \<Rightarrow>
          (let bytes1 = (if b = SOF then [] else bytes);
               sof1 = (if b = SOF then True else sof);
               bytes2 = (if sof1 then bytes1 @ [b] else bytes1)
           in if b = EOF then Some bytes2
              else tty_read_loop SOF EOF port (i + 1) bytes2 sof1))"

definition tty_interface_read :: "externals \<Rightarrow> serial_port \<Rightarrow> byte list option" where
  "tty_interface_read X port = tty_read_loop (uframe_SOF X) (uframe_EOF X) port 0 [] False"

text \<open>A port that delivers the given bytes and then stays silent.\<close>

definition port_of :: "byte list \<Rightarrow> serial_port" where
  "port_of bs i = (if i < length bs then Some (bs ! i) else None)"

text \<open>
  The same scan over the bytes that arrive before the first timeout: the bytes collected
  and whether a start marker has been seen, after each byte.
\<close>

fun scan_bytes :: "int \<Rightarrow> int \<Rightarrow> byte list \<Rightarrow> byte list \<Rightarrow> bool \<Rightarrow> byte list" where
  "scan_bytes SOF EOF [] bytes sof = bytes"
| "scan_bytes SOF EOF (b # bs) bytes sof =
     (let bytes1 = (if b = SOF then [] else bytes);
          sof1 = (if b = SOF then True else sof);
          bytes2 = (if sof1 then bytes1 @ [b] else bytes1)
      in if b = EOF then bytes2 else scan_bytes SOF EOF bs bytes2 sof1)"

section \<open>Discovery\<close>

text \<open>
  A decoded discovery frame, as far as the listener reads it: the frame type and, for each
  announced service, its port, type and name.
\<close>

record service =
  svc_port :: int
  svc_type :: int
  service_name :: string

record uhej_frame =
  frame_type :: int
  services :: "service list"

text \<open>
  What one pass of the listener's loop gets from \<open>sock.recvfrom(1024)\<close>: a datagram with
  the address and port it came from, or a socket error.
\<close>

datatype received =
    Datagram "byte list" string int
  | Socket_error

text \<open>
  The globals of the scan: \<open>discovery_list\<close>, a dictionary from key to \<open>True\<close>, kept as
  the list of its entries in the order they were added, and the lines printed.
\<close>

record scan_state =
  discovery_list :: "(string \<times> bool) list"
  scan_output :: "printed list"

definition discovery_key :: "string \<Rightarrow> int \<Rightarrow> int \<Rightarrow> string" where
  "discovery_key source p t = source @ '':'' @ str_int p @ '':'' @ str_int t"

definition key_in :: "string \<Rightarrow> (string \<times> bool) list \<Rightarrow> bool" where
  "key_in key d = (map_of d key \<noteq> None)"

fun announce_services :: "string \<Rightarrow> service list \<Rightarrow> scan_state \<Rightarrow> scan_state" where
  "announce_services source [] st = st"
| "announce_services source (s # ss) st =
     (let key = discovery_key source (svc_port s) (svc_type s)
      in announce_services source ss
           (if \<not> key_in key (discovery_list st)
            then (if service_name s = ''opendps''
                  then st\<lparr>discovery_list := discovery_list st @ [(key, True)],
                          scan_output := scan_output st @ [Print source]\<rparr>
                  else st)
            else st))"

text \<open>
  One pass of the loop of \<open>uhej_worker_thread\<close>. \<open>decode_frame\<close> is
  \<open>uhej.decode_frame\<close>, with \<open>None\<close> for its \<open>IllegalFrameException\<close>, and
  \<open>ANNOUNCE\<close> is \<open>uhej.ANNOUNCE\<close>; the \<open>uhej\<close> module is not part of the sources at
  hand.
\<close>

definition worker_pass ::
  "(byte list \<Rightarrow> uhej_frame option) \<Rightarrow> int \<Rightarrow> scan_state \<Rightarrow> received \<Rightarrow> scan_state" where
  "worker_pass decode_frame ANNOUNCE st r =
     (case r of
        Socket_error \<Rightarrow> st\<lparr>scan_output := scan_output st @ [Print ''Exception'']\<rparr>
      | Datagram data addr port \<Rightarrow>
          (case decode_frame data of
             None \<Rightarrow> st
           | Some f \<Rightarrow>
               if ANNOUNCE = frame_type f then announce_services addr (services f) st else st))"

text \<open>
  The listener over the datagrams of one scan window, from the empty \<open>discovery_list\<close>
  that \<open>uhej_scan\<close> sets up.
\<close>

definition uhej_worker_thread ::
  "(byte list \<Rightarrow> uhej_frame option) \<Rightarrow> int \<Rightarrow> scan_state \<Rightarrow> received list \<Rightarrow> scan_state" where
  "uhej_worker_thread decode_frame ANNOUNCE st rs = foldl (worker_pass decode_frame ANNOUNCE) st rs"

definition scan_start :: scan_state where
  "scan_start = \<lparr>discovery_list = [], scan_output = []\<rparr>"

section \<open>An instance of the parameters\<close>

text \<open>
  For evaluating the definitions on concrete inputs: command identifiers that are pairwise
  distinct and lie below the response flag \<open>0x80\<close>, pairwise distinct status codes, and
  frames that are the content between the two markers, with no escaping and no checksum.
\<close>

definition example_protocol :: protocol where
  "example_protocol =
     \<lparr>cmd_ping = 1, cmd_query = 4, cmd_lock = 7, cmd_upgrade_start = 9, cmd_upgrade_data = 10,
      cmd_set_function = 11, cmd_enable_output = 12, cmd_list_functions = 13,
      cmd_set_parameters = 14, cmd_list_parameters = 15, cmd_temperature_report = 16,
      cmd_cal_report = 18, cmd_set_calibration = 19, cmd_init = 20, cmd_response = 128,
      upgrade_continue = 0, upgrade_crc_error = 2, upgrade_erase_error = 3,
      upgrade_flash_error = 4, upgrade_overflow_error = 5, upgrade_success = 16\<rparr>"

definition example_set_frame :: "byte list \<Rightarrow> int \<times> byte list" where
  "example_set_frame resp =
     (if 2 \<le> length resp \<and> hd resp = 126 \<and> last resp = 127
      then (int (length resp) - 2, butlast (tl resp))
      else (- 1, []))"

definition example_externals :: externals where
  "example_externals =
     \<lparr>unpack_cal_report = (\<lambda>f. Inr []),
      unpack_query_response = (\<lambda>f. Inr []),
      create_upgrade_start = (\<lambda>chunk_size crc.
         [126, 9, chunk_size div 256, chunk_size mod 256, crc div 256, crc mod 256, 127]),
      create_upgrade_data = (\<lambda>chunk. [126, 10] @ chunk @ [127]),
      set_frame = example_set_frame,
      crc_ccitt = (\<lambda>content. 0),
      uframe_SOF = 126,
      uframe_EOF = 127\<rparr>"

definition example_args :: args where
  "example_args = \<lparr>json = False, verbose = False, force = False, parameter = None\<rparr>"

definition example_comms :: "byte list list \<Rightarrow> comm_interface" where
  "example_comms replies =
     \<lparr>if_name = ''/dev/ttyUSB0'', open_result = True, write_result = True, inbox = replies,
      outbox = [], is_open = False, closes = 0\<rparr>"

section \<open>Properties of the response handler\<close>

text \<open>
  No decoder calls \<open>fail\<close>: once the dispatch is reached, the call either returns or
  raises.
\<close>

lemma response_upgrade_start_no_fail:
  "snd (response_upgrade_start frame js) \<noteq> Inl (Fail m)"
  by (simp add: response_upgrade_start_def split: sum.splits prod.splits)

lemma response_upgrade_data_no_fail:
  "snd (response_upgrade_data frame js) \<noteq> Inl (Fail m)"
  by (simp add: response_upgrade_data_def split: sum.splits prod.splits)

lemma response_query_no_fail:
  "snd (response_query X frame a quiet js) \<noteq> Inl (Fail m)"
  by (simp add: response_query_def split: sum.splits prod.splits option.splits)

lemma response_set_function_no_fail:
  "snd (response_set_function frame quiet js) \<noteq> Inl (Fail m)"
  by (simp add: response_set_function_def split: sum.splits prod.splits)

lemma response_list_functions_no_fail:
  "snd (response_list_functions frame a js) \<noteq> Inl (Fail m)"
  by (simp add: response_list_functions_def split: sum.splits prod.splits)

lemma response_set_parameters_no_fail:
  "snd (response_set_parameters frame a quiet js) \<noteq> Inl (Fail m)"
  by (simp add: response_set_parameters_def split: sum.splits prod.splits option.splits)

lemma response_list_parameters_no_fail:
  "snd (response_list_parameters frame a js) \<noteq> Inl (Fail m)"
  by (simp add: response_list_parameters_def split: sum.splits prod.splits)

lemma response_enable_output_no_fail:
  "snd (response_enable_output frame js) \<noteq> Inl (Fail m)"
  by (simp add: response_enable_output_def split: sum.splits prod.splits)

lemmas response_no_fail =
  response_upgrade_start_no_fail response_upgrade_data_no_fail response_query_no_fail
  response_set_function_no_fail response_list_functions_no_fail
  response_set_parameters_no_fail response_list_parameters_no_fail
  response_enable_output_no_fail

lemma if_no_fail:
  "snd x \<noteq> v \<Longrightarrow> snd y \<noteq> v \<Longrightarrow> snd (if c then x else y) \<noteq> v"
  by simp

lemma handle_response_branch_no_fail:
  "snd (handle_response_branch P X rc frame a quiet js) \<noteq> Inl (Fail m)"
  unfolding handle_response_branch_def
  by (intro if_no_fail response_no_fail) (simp_all split: sum.splits)

lemma handle_response_dispatch_no_fail:
  "snd (handle_response_dispatch P X rc frame a quiet) \<noteq> Inl (Fail m)"
proof -
  define js where "js = (if json a then [(''cmd'', PInt rc), (''status'', PInt 1)] else [])"
  obtain out r where br: "handle_response_branch P X rc frame a quiet js = (out, r)"
    by (cases "handle_response_branch P X rc frame a quiet js")
  have "r \<noteq> Inl (Fail m)"
    using handle_response_branch_no_fail [of P X rc frame a quiet js m] br by simp
  then show ?thesis
    unfolding handle_response_dispatch_def Let_def js_def [symmetric] br
    by (cases r) auto
qed

lemma snd_prepend: "snd (case x of (out, r) \<Rightarrow> (f out, r)) = snd x"
  by (simp split: prod.splits)

text \<open>
  Claim C5. Take a response frame that has its success byte, whose first byte carries the
  response flag and whose success byte is zero. If its command, the first byte with the
  flag flipped off, is neither upgrade-start nor upgrade-data, the call ends in \<open>fail\<close>
  with the message that the command failed according to the device. If it is one of the two
  upgrade commands, the call does not end in \<open>fail\<close> at all.
\<close>

theorem command_failed_unless_upgrade:
  assumes "2 \<le> length (get_frame frame)"
    and "get_frame frame ! 0 AND cmd_response P \<noteq> 0"
    and "get_frame frame ! 1 = 0"
  shows "(get_frame frame ! 0 XOR cmd_response P \<noteq> cmd_upgrade_start P
          \<and> get_frame frame ! 0 XOR cmd_response P \<noteq> cmd_upgrade_data P
          \<longrightarrow> snd (handle_response P X command frame a quiet)
              = Inl (Fail ''command failed according to device''))
       \<and> (get_frame frame ! 0 XOR cmd_response P = cmd_upgrade_start P
          \<or> get_frame frame ! 0 XOR cmd_response P = cmd_upgrade_data P
          \<longrightarrow> (\<forall>m. snd (handle_response P X command frame a quiet) \<noteq> Inl (Fail m)))"
  using assms
  by (auto simp: handle_response_def Let_def snd_prepend handle_response_dispatch_no_fail)

theorem command_failed_unless_upgrade_witness:
  "snd (handle_response example_protocol example_externals 1
          \<lparr>frame_bytes = [129, 0], unpack_pos = 0\<rparr> example_args False)
     = Inl (Fail ''command failed according to device'')
   \<and> (\<forall>m. snd (handle_response example_protocol example_externals 10
                 \<lparr>frame_bytes = [138, 0], unpack_pos = 0\<rparr> example_args False)
            \<noteq> Inl (Fail m))"
  using command_failed_unless_upgrade
          [of "\<lparr>frame_bytes = [129, 0], unpack_pos = 0\<rparr>" example_protocol
              example_externals 1 example_args False]
        command_failed_unless_upgrade
          [of "\<lparr>frame_bytes = [138, 0], unpack_pos = 0\<rparr>" example_protocol
              example_externals 10 example_args False]
  by (simp add: get_frame_def example_protocol_def)































section \<open>The upgrade session against a scripted device\<close>

text \<open>
  The device's side of an upgrade, as hypotheses on what the interface delivers. A byte
  \<open>b\<close> is the command byte of a response to \<open>cmd\<close> when it carries the response flag
  and is \<open>cmd\<close> once the flag is flipped off. A reply to upgrade-start is a non-empty
  read that \<open>set_frame\<close> accepts, with such a command byte, the status and the chunk size;
  a reply to upgrade-data likewise, with the status.
\<close>

definition is_response_to :: "protocol \<Rightarrow> int \<Rightarrow> int \<Rightarrow> bool" where
  "is_response_to P cmd b \<longleftrightarrow> b AND cmd_response P \<noteq> 0 \<and> b XOR cmd_response P = cmd"

definition upgrade_start_reply ::
  "protocol \<Rightarrow> externals \<Rightarrow> byte list \<Rightarrow> int \<Rightarrow> int \<Rightarrow> bool" where
  "upgrade_start_reply P X r status chunk_size =
     (case set_frame X r of
        (res, content) \<Rightarrow>
          r \<noteq> [] \<and> 0 \<le> res \<and> 4 \<le> length content
          \<and> is_response_to P (cmd_upgrade_start P) (content ! 0)
          \<and> content ! 1 = status \<and> content ! 2 * 256 + content ! 3 = chunk_size)"

definition upgrade_data_reply :: "protocol \<Rightarrow> externals \<Rightarrow> byte list \<Rightarrow> int \<Rightarrow> bool" where
  "upgrade_data_reply P X r status =
     (case set_frame X r of
        (res, content) \<Rightarrow>
          r \<noteq> [] \<and> 0 \<le> res \<and> 2 \<le> length content
          \<and> is_response_to P (cmd_upgrade_data P) (content ! 0)
          \<and> content ! 1 = status)"

text \<open>
  The dispatch reaches the two upgrade decoders when no earlier branch of the chain has the
  same identifier, and the loop reads a status as the code meant when the six codes differ.
\<close>

definition upgrade_commands_apart :: "protocol \<Rightarrow> bool" where
  "upgrade_commands_apart P \<longleftrightarrow>
     cmd_upgrade_start P \<noteq> cmd_ping P \<and> cmd_upgrade_start P \<noteq> cmd_cal_report P
     \<and> cmd_upgrade_start P \<noteq> cmd_query P
     \<and> cmd_upgrade_data P \<noteq> cmd_ping P \<and> cmd_upgrade_data P \<noteq> cmd_cal_report P
     \<and> cmd_upgrade_data P \<noteq> cmd_query P \<and> cmd_upgrade_data P \<noteq> cmd_upgrade_start P"

definition upgrade_status_apart :: "protocol \<Rightarrow> bool" where
  "upgrade_status_apart P \<longleftrightarrow>
     distinct [upgrade_continue P, upgrade_crc_error P, upgrade_erase_error P,
               upgrade_flash_error P, upgrade_overflow_error P, upgrade_success P]"

definition is_Fail :: "outcome \<Rightarrow> bool" where
  "is_Fail e = (case e of Fail m \<Rightarrow> True | _ \<Rightarrow> False)"

text \<open>The interface after one complete exchange: opened, one frame written, one reply read.\<close>

definition exchanged :: "comm_interface \<Rightarrow> byte list \<Rightarrow> comm_interface" where
  "exchanged c frame = c\<lparr>is_open := True, outbox := outbox c @ [frame], inbox := tl (inbox c)\<rparr>"

lemma handle_response_upgrade_data:
  assumes "upgrade_commands_apart P"
    and "2 \<le> length content"
    and "is_response_to P (cmd_upgrade_data P) (content ! 0)"
  shows "snd (handle_response P X command \<lparr>frame_bytes = content, unpack_pos = 0\<rparr> a quiet)
           = Inr [(''status'', PInt (content ! 1))]"
  using assms
  by (auto simp: handle_response_def get_frame_def Let_def is_response_to_def
        upgrade_commands_apart_def handle_response_dispatch_def handle_response_branch_def
        response_upgrade_data_def unpack8_def split: prod.splits)

lemma handle_response_upgrade_start:
  assumes "upgrade_commands_apart P"
    and "4 \<le> length content"
    and "is_response_to P (cmd_upgrade_start P) (content ! 0)"
  shows "snd (handle_response P X command \<lparr>frame_bytes = content, unpack_pos = 0\<rparr> a quiet)
           = Inr [(''status'', PInt (content ! 1)),
                  (''chunk_size'', PInt (content ! 2 * 256 + content ! 3))]"
  using assms
  by (auto simp: handle_response_def get_frame_def Let_def is_response_to_def
        upgrade_commands_apart_def handle_response_dispatch_def handle_response_branch_def
        response_upgrade_start_def unpack8_def unpack16_def numeral_3_eq_3 numeral_2_eq_2
        split: prod.splits)


lemma communicate_reply:
  assumes "open_result c" and "write_result c"
    and "inbox c = r # rs" and "r \<noteq> []"
    and "set_frame X r = (res, content)" and "0 \<le> res"
    and "2 \<le> length frame"
  shows "fst (fst (communicate P X (Some c) frame a quiet)) = Some (exchanged c frame)"
    and "snd (communicate P X (Some c) frame a quiet)
           = snd (handle_response P X (frame ! 1) \<lparr>frame_bytes = content, unpack_pos = 0\<rparr> a quiet)"
  using assms
  by (simp_all add: communicate_def comm_open_def comm_write_def comm_read_def exchanged_def
        Let_def split: prod.splits)

lemma communicate_upgrade_data:
  assumes "upgrade_commands_apart P"
    and "open_result c" and "write_result c"
    and "inbox c = r # rs" and "upgrade_data_reply P X r status"
    and "2 \<le> length frame"
  shows "\<exists>out. communicate P X (Some c) frame a quiet
           = ((Some (exchanged c frame), out), Inr [(''status'', PInt status)])"
proof -
  obtain res content where sf: "set_frame X r = (res, content)"
    by (cases "set_frame X r")
  from assms(5) sf have r: "r \<noteq> []" "0 \<le> res" "2 \<le> length content"
    "is_response_to P (cmd_upgrade_data P) (content ! 0)" "content ! 1 = status"
    by (simp_all add: upgrade_data_reply_def)
  have "fst (fst (communicate P X (Some c) frame a quiet)) = Some (exchanged c frame)"
    and "snd (communicate P X (Some c) frame a quiet) = Inr [(''status'', PInt status)]"
    using communicate_reply [OF assms(2,3,4) r(1) sf r(2) assms(6), of P a quiet]
      handle_response_upgrade_data [OF assms(1) r(3,4), of X "frame ! 1" a quiet] r(5)
    by simp_all
  then show ?thesis
    by (cases "communicate P X (Some c) frame a quiet") auto
qed

lemma communicate_upgrade_start:
  assumes "upgrade_commands_apart P"
    and "open_result c" and "write_result c"
    and "inbox c = r # rs" and "upgrade_start_reply P X r status chunk_size"
    and "2 \<le> length frame"
  shows "\<exists>out. communicate P X (Some c) frame a quiet
           = ((Some (exchanged c frame), out),
              Inr [(''status'', PInt status), (''chunk_size'', PInt chunk_size)])"
proof -
  obtain res content where sf: "set_frame X r = (res, content)"
    by (cases "set_frame X r")
  from assms(5) sf have r: "r \<noteq> []" "0 \<le> res" "4 \<le> length content"
    "is_response_to P (cmd_upgrade_start P) (content ! 0)" "content ! 1 = status"
    "content ! 2 * 256 + content ! 3 = chunk_size"
    by (simp_all add: upgrade_start_reply_def)
  have "fst (fst (communicate P X (Some c) frame a quiet)) = Some (exchanged c frame)"
    and "snd (communicate P X (Some c) frame a quiet)
           = Inr [(''status'', PInt status), (''chunk_size'', PInt chunk_size)]"
    using communicate_reply [OF assms(2,3,4) r(1) sf r(2) assms(6), of P a quiet]
      handle_response_upgrade_start [OF assms(1) r(3,4), of X "frame ! 1" a quiet] r(5,6)
    by simp_all
  then show ?thesis
    by (cases "communicate P X (Some c) frame a quiet") auto
qed



lemma upgrade_loop_status:
  assumes "communicate P X comms (create_upgrade_data X chunk) a False
             = ((comms', out2), Inr [(''status'', PInt s)])"
  shows "upgrade_loop P X a n (chunk # chunks) k comms =
     (let out = Download_progress (k + length chunk) n # out2 in
      if s = upgrade_continue P then
        (case upgrade_loop P X a n chunks (k + length chunk) comms' of
           ((comms'', out3), r) \<Rightarrow> ((comms'', out @ out3), r))
      else if s = upgrade_crc_error P then
        ((comms', out @ [Print []]), Fail ''device reported CRC error'')
      else if s = upgrade_erase_error P then
        ((comms', out @ [Print []]), Fail ''device reported erasing error'')
      else if s = upgrade_flash_error P then
        ((comms', out @ [Print []]), Fail ''device reported flashing error'')
      else if s = upgrade_overflow_error P then
        ((comms', out @ [Print []]), Fail ''device reported firmware overflow error'')
      else if s = upgrade_success P then
        (case upgrade_loop P X a n chunks (k + length chunk) comms' of
           ((comms'', out3), r) \<Rightarrow> ((comms'', out @ [Print []] @ out3), r))
      else ((comms', out @ [Print []]),
            Fail (''device reported an unknown error ('' @ str_int s @ '')'')))"
  by (simp add: assms dict_get_def as_int_def Let_def)


lemma upgrade_loop_step_ok:
  assumes "upgrade_commands_apart P" and "upgrade_status_apart P"
    and "2 \<le> length (create_upgrade_data X chunk)"
    and "open_result c" and "write_result c"
    and "inbox c = r # rs" and "upgrade_data_reply P X r status"
    and "status = upgrade_continue P \<or> status = upgrade_success P"
  shows "\<exists>out1. upgrade_loop P X a n (chunk # chunks) k (Some c)
           = (case upgrade_loop P X a n chunks (k + length chunk)
                     (Some (exchanged c (create_upgrade_data X chunk))) of
                ((c', out3), r) \<Rightarrow>
                  ((c', Download_progress (k + length chunk) n # out1 @ out3), r))"
proof -
  from communicate_upgrade_data [OF assms(1,4,5,6,7,3), of a False]
  obtain out where com: "communicate P X (Some c) (create_upgrade_data X chunk) a False
      = ((Some (exchanged c (create_upgrade_data X chunk)), out), Inr [(''status'', PInt status)])"
    by blast
  note step = upgrade_loop_status [OF com, of n chunks k]
  show ?thesis
  proof (cases "status = upgrade_continue P")
    case True
    then show ?thesis
      unfolding step Let_def
      by (intro exI [of _ out]) simp
  next
    case False
    with assms(8) have s: "status = upgrade_success P" by simp
    with assms(2) have "status \<noteq> upgrade_continue P" "status \<noteq> upgrade_crc_error P"
      "status \<noteq> upgrade_erase_error P" "status \<noteq> upgrade_flash_error P"
      "status \<noteq> upgrade_overflow_error P"
      by (auto simp: upgrade_status_apart_def)
    then show ?thesis
      unfolding step Let_def
      by (intro exI [of _ "out @ [Print []]"]) (simp add: s [symmetric])
  qed
qed

lemma upgrade_loop_step_bad:
  assumes "upgrade_commands_apart P"
    and "2 \<le> length (create_upgrade_data X chunk)"
    and "open_result c" and "write_result c"
    and "inbox c = r # rs" and "upgrade_data_reply P X r status"
    and "status \<noteq> upgrade_continue P" and "status \<noteq> upgrade_success P"
  shows "fst (fst (upgrade_loop P X a n (chunk # chunks) k (Some c)))
           = Some (exchanged c (create_upgrade_data X chunk))
       \<and> is_Fail (snd (upgrade_loop P X a n (chunk # chunks) k (Some c)))"
proof -
  from communicate_upgrade_data [OF assms(1,3,4,5,6,2), of a False]
  obtain out where com: "communicate P X (Some c) (create_upgrade_data X chunk) a False
      = ((Some (exchanged c (create_upgrade_data X chunk)), out), Inr [(''status'', PInt status)])"
    by blast
  show ?thesis
    using assms(7,8)
    unfolding upgrade_loop_status [OF com] Let_def
    by (simp add: is_Fail_def)
qed


lemma exchanged_simps [simp]:
  "open_result (exchanged c frame) = open_result c"
  "write_result (exchanged c frame) = write_result c"
  "outbox (exchanged c frame) = outbox c @ [frame]"
  "inbox (exchanged c frame) = tl (inbox c)"
  "is_open (exchanged c frame) = True"
  "closes (exchanged c frame) = closes c"
  by (simp_all add: exchanged_def)

lemma upgrade_loop_all_ok:
  assumes apart: "upgrade_commands_apart P" "upgrade_status_apart P"
    and len: "\<And>chunk. 2 \<le> length (create_upgrade_data X chunk)"
    and c: "open_result c" "write_result c" "inbox c = replies @ rest"
    and replies: "list_all2 (upgrade_data_reply P X) replies statuses"
    and n: "length statuses = length chunks"
    and ok: "\<forall>s\<in>set statuses. s = upgrade_continue P \<or> s = upgrade_success P"
  shows "\<exists>c' out. upgrade_loop P X a n chunks k (Some c) = ((Some c', out), Exit 0)
           \<and> outbox c' = outbox c @ map (create_upgrade_data X) chunks
           \<and> inbox c' = rest
           \<and> (chunks \<noteq> [] \<longrightarrow> Download_progress (k + sum_list (map length chunks)) n \<in> set out)"
  using c replies n ok
proof (induction chunks arbitrary: c k replies statuses)
  case Nil
  then show ?case by simp
next
  case (Cons chunk chunks)
  from Cons.prems(5) obtain s ss where st: "statuses = s # ss" "length ss = length chunks"
    by (cases statuses) auto
  with Cons.prems(4) obtain r rs where rp: "replies = r # rs" "upgrade_data_reply P X r s"
    "list_all2 (upgrade_data_reply P X) rs ss"
    by (cases replies) auto
  let ?c1 = "exchanged c (create_upgrade_data X chunk)"
  have inb: "inbox c = r # (rs @ rest)"
    using Cons.prems(3) rp(1) by simp
  have s: "s = upgrade_continue P \<or> s = upgrade_success P"
    and ss: "\<forall>s\<in>set ss. s = upgrade_continue P \<or> s = upgrade_success P"
    using Cons.prems(6) st(1) by simp_all
  from upgrade_loop_step_ok [OF apart len Cons.prems(1,2) inb rp(2) s, where a = a and n = n and chunks = chunks and k = k]
  obtain out1 where step: "upgrade_loop P X a n (chunk # chunks) k (Some c)
      = (case upgrade_loop P X a n chunks (k + length chunk) (Some ?c1) of
           ((c', out3), r) \<Rightarrow> ((c', Download_progress (k + length chunk) n # out1 @ out3), r))"
    by blast
  have "inbox ?c1 = rs @ rest"
    using inb by simp
  from Cons.IH [OF _ _ this rp(3) st(2) ss, where k = "k + length chunk"] Cons.prems(1,2)
  obtain c' out3 where rest: "upgrade_loop P X a n chunks (k + length chunk) (Some ?c1)
        = ((Some c', out3), Exit 0)"
    "outbox c' = outbox ?c1 @ map (create_upgrade_data X) chunks"
    "inbox c' = rest"
    "chunks \<noteq> [] \<longrightarrow> Download_progress (k + length chunk + sum_list (map length chunks)) n \<in> set out3"
    by auto
  show ?case
    unfolding step rest(1)
    using rest(2,3,4)
    by (cases "chunks = []") (auto simp: add.assoc)
qed

lemma upgrade_loop_fails:
  assumes apart: "upgrade_commands_apart P" "upgrade_status_apart P"
    and len: "\<And>chunk. 2 \<le> length (create_upgrade_data X chunk)"
    and c: "open_result c" "write_result c" "inbox c = replies @ rest"
    and replies: "list_all2 (upgrade_data_reply P X) replies (oks @ [bad])"
    and n: "length oks < length chunks"
    and ok: "\<forall>s\<in>set oks. s = upgrade_continue P \<or> s = upgrade_success P"
    and bad: "bad \<noteq> upgrade_continue P" "bad \<noteq> upgrade_success P"
  shows "\<exists>c'. fst (fst (upgrade_loop P X a n chunks k (Some c))) = Some c'
           \<and> outbox c' = outbox c @ map (create_upgrade_data X) (take (Suc (length oks)) chunks)
           \<and> inbox c' = rest
           \<and> is_Fail (snd (upgrade_loop P X a n chunks k (Some c)))"
  using c replies n ok
proof (induction oks arbitrary: c k replies chunks)
  case Nil
  from Nil.prems(5) obtain chunk chunks' where ch: "chunks = chunk # chunks'"
    by (cases chunks) auto
  from Nil.prems(4) obtain r where rp: "replies = [r]" "upgrade_data_reply P X r bad"
    by (cases replies) auto
  have inb: "inbox c = r # rest"
    using Nil.prems(3) rp(1) by simp
  from upgrade_loop_step_bad [OF apart(1) len Nil.prems(1,2) inb rp(2) bad, where a = a and n = n and chunks = chunks' and k = k]
  show ?case
    using inb by (simp add: ch)
next
  case (Cons s oks)
  from Cons.prems(5) obtain chunk chunks' where ch: "chunks = chunk # chunks'"
    "length oks < length chunks'"
    by (cases chunks) auto
  from Cons.prems(4) obtain r rs where rp: "replies = r # rs" "upgrade_data_reply P X r s"
    "list_all2 (upgrade_data_reply P X) rs (oks @ [bad])"
    by (cases replies) auto
  let ?c1 = "exchanged c (create_upgrade_data X chunk)"
  have inb: "inbox c = r # (rs @ rest)"
    using Cons.prems(3) rp(1) by simp
  have s: "s = upgrade_continue P \<or> s = upgrade_success P"
    and ss: "\<forall>s\<in>set oks. s = upgrade_continue P \<or> s = upgrade_success P"
    using Cons.prems(6) by simp_all
  from upgrade_loop_step_ok [OF apart len Cons.prems(1,2) inb rp(2) s, where a = a and n = n and chunks = chunks' and k = k]
  obtain out1 where step: "upgrade_loop P X a n (chunk # chunks') k (Some c)
      = (case upgrade_loop P X a n chunks' (k + length chunk) (Some ?c1) of
           ((c', out3), r) \<Rightarrow> ((c', Download_progress (k + length chunk) n # out1 @ out3), r))"
    by blast
  have "inbox ?c1 = rs @ rest"
    using inb by simp
  from Cons.IH [OF _ _ this rp(3) ch(2) ss, where k = "k + length chunk"] Cons.prems(1,2)
  obtain c' where rest: "fst (fst (upgrade_loop P X a n chunks' (k + length chunk) (Some ?c1))) = Some c'"
    "outbox c' = outbox ?c1 @ map (create_upgrade_data X) (take (Suc (length oks)) chunks')"
    "inbox c' = rest"
    "is_Fail (snd (upgrade_loop P X a n chunks' (k + length chunk) (Some ?c1)))"
    by auto
  show ?case
    unfolding ch(1) step
    using rest
    by (cases "upgrade_loop P X a n chunks' (k + length chunk) (Some ?c1)") auto
qed

text \<open>The chunks of a file: none for an empty file, and their lengths add up to its length.\<close>

lemma chunk_from_file_Nil [simp]: "chunk_from_file [] n = []"
  by (simp add: chunk_from_file.simps)

lemma chunk_from_file_zero [simp]: "chunk_from_file content 0 = []"
  by (simp add: chunk_from_file.simps)

lemma chunk_from_file_step:
  "content \<noteq> [] \<Longrightarrow> 0 < n
     \<Longrightarrow> chunk_from_file content n = take n content # chunk_from_file (drop n content) n"
  by (subst chunk_from_file.simps) (simp add: Let_def)

lemma chunk_from_file_single:
  "content \<noteq> [] \<Longrightarrow> length content \<le> n \<Longrightarrow> chunk_from_file content n = [content]"
  by (cases n) (simp_all add: chunk_from_file_step)

lemma chunk_from_file_not_Nil:
  "content \<noteq> [] \<Longrightarrow> 0 < n \<Longrightarrow> chunk_from_file content n \<noteq> []"
  by (simp add: chunk_from_file_step)

lemma sum_length_chunk_from_file:
  "0 < n \<Longrightarrow> sum_list (map length (chunk_from_file content n)) = length content"
proof (induction content n rule: chunk_from_file.induct)
  case (1 content chunk_size)
  show ?case
  proof (cases "content = []")
    case True
    then show ?thesis by simp
  next
    case False
    with "1.prems" have "take chunk_size content \<noteq> []" by simp
    from "1.IH" [OF refl this "1.prems"] False "1.prems" show ?thesis
      by (simp add: chunk_from_file_step min_def)
  qed
qed

lemma run_upgrade_started:
  assumes "take 2 (drop 6 (encode_hex content)) = ''20'' \<or> force a"
    and "communicate P X comms (create_upgrade_start X 1024 (crc_ccitt X content)) a False
           = ((comms1, out1), Inr [(''status'', PInt (upgrade_continue P)), (''chunk_size'', PInt cs)])"
  shows "run_upgrade P X comms content a
           = (case upgrade_loop P X a (length content) (chunk_from_file content 1024) 0 comms1 of
                ((comms2, out3), r) \<Rightarrow>
                  ((comms2, out1 @ (if cs \<noteq> 1024 then [Device_selected_chunk_size (PInt cs)] else [])
                            @ out3), r))"
  using assms(1)
  by (auto simp: run_upgrade_def assms(2) dict_get_def Let_def)

lemma run_upgrade_transfer:
  assumes apart: "upgrade_commands_apart P"
    and start_len: "2 \<le> length (create_upgrade_start X 1024 (crc_ccitt X content))"
    and guard: "take 2 (drop 6 (encode_hex content)) = ''20'' \<or> force a"
    and c: "open_result c" "write_result c" "inbox c = r0 # rs"
    and r0: "upgrade_start_reply P X r0 (upgrade_continue P) cs"
  shows "\<exists>out1. run_upgrade P X (Some c) content a
           = (case upgrade_loop P X a (length content) (chunk_from_file content 1024) 0
                     (Some (exchanged c (create_upgrade_start X 1024 (crc_ccitt X content)))) of
                ((comms2, out3), r) \<Rightarrow> ((comms2, out1 @ out3), r))"
proof -
  from communicate_upgrade_start [OF apart c r0 start_len, of a False]
  obtain out where com:
    "communicate P X (Some c) (create_upgrade_start X 1024 (crc_ccitt X content)) a False
       = ((Some (exchanged c (create_upgrade_start X 1024 (crc_ccitt X content))), out),
          Inr [(''status'', PInt (upgrade_continue P)), (''chunk_size'', PInt cs)])"
    by blast
  show ?thesis
    unfolding run_upgrade_started [OF guard com]
    by (intro exI [of _ "out @ (if cs \<noteq> 1024 then [Device_selected_chunk_size (PInt cs)] else [])"])
       simp
qed

text \<open>
  A firmware image for the examples: the marker byte \<open>0x20\<close> at offset 3, then \<open>n\<close> zero
  bytes.
\<close>

definition example_firmware :: "nat \<Rightarrow> byte list" where
  "example_firmware n = [0, 0, 0, 32] @ replicate n 0"

lemma example_firmware_marker:
  "take 2 (drop 6 (encode_hex (example_firmware n))) = ''20''"
  by (simp add: example_firmware_def encode_hex_def hex_digit_def)

lemmas example_defs =
  example_protocol_def example_externals_def example_args_def example_comms_def
  example_set_frame_def

lemmas exchange_defs =
  communicate_def comm_open_def comm_write_def comm_read_def comms_close_attribute_def
  handle_response_def handle_response_dispatch_def handle_response_branch_def
  response_upgrade_start_def response_upgrade_data_def unpack8_def unpack16_def get_frame_def
  dict_get_def

lemma length_example_firmware [simp]: "length (example_firmware n) = n + 4"
  by (simp add: example_firmware_def)

lemma example_firmware_not_Nil [simp]: "example_firmware n \<noteq> []"
  by (simp add: example_firmware_def)

lemma example_apart:
  "upgrade_commands_apart example_protocol" "upgrade_status_apart example_protocol"
  by (simp_all add: upgrade_commands_apart_def upgrade_status_apart_def example_protocol_def)

lemma example_frame_lengths:
  "2 \<le> length (create_upgrade_start example_externals chunk_size crc)"
  "2 \<le> length (create_upgrade_data example_externals chunk)"
  by (simp_all add: example_externals_def)

lemma example_start_reply:
  "upgrade_start_reply example_protocol example_externals
      [126, 137, 0, 4, 0, 127] (upgrade_continue example_protocol) 1024"
  by (simp add: upgrade_start_reply_def is_response_to_def example_defs)

lemma example_data_reply:
  "upgrade_data_reply example_protocol example_externals [126, 138, 16, 127]
     (upgrade_success example_protocol)"
  "upgrade_data_reply example_protocol example_externals [126, 138, 2, 127]
     (upgrade_crc_error example_protocol)"
  by (simp_all add: upgrade_data_reply_def is_response_to_def example_defs)

lemma example_comms_simps [simp]:
  "open_result (example_comms replies)" "write_result (example_comms replies)"
  "inbox (example_comms replies) = replies" "outbox (example_comms replies) = []"
  by (simp_all add: example_comms_def)

text \<open>
  Claim C1, evaluated on the client: a firmware file of 258 bytes, and a device that answers
  upgrade-start with status continue and chunk size 257. The client prints the chunk size
  the device selected and then sends the whole file as one upgrade-data frame, read with
  the proposed size 1024; with the device's size the file is two chunks, of 257 bytes and
  of one byte.
\<close>

theorem device_chunk_size_not_adopted:
  "run_upgrade example_protocol example_externals
      (Some (example_comms [[126, 137, 0, 1, 1, 127], [126, 138, 16, 127]]))
      (example_firmware 254) example_args
     = ((Some ((example_comms [])
                 \<lparr>outbox := [[126, 9, 4, 0, 0, 0, 127],
                             [126, 10] @ example_firmware 254 @ [127]],
                  is_open := True\<rparr>),
         [Device_selected_chunk_size (PInt 257), Download_progress 258 258, Print []]),
        Exit 0)
   \<and> chunk_from_file (example_firmware 254) 257 = [example_firmware 253, [0]]"
proof -
  have len: "length (example_firmware 254) = 258"
    by (simp add: example_firmware_def)
  have ne: "example_firmware 254 \<noteq> []"
    by (simp add: example_firmware_def)
  have chunks: "chunk_from_file (example_firmware 254) 1024 = [example_firmware 254]"
    by (rule chunk_from_file_single [OF ne]) (simp add: len)
  have run: "run_upgrade example_protocol example_externals
      (Some (example_comms [[126, 137, 0, 1, 1, 127], [126, 138, 16, 127]]))
      (example_firmware 254) example_args
     = ((Some ((example_comms [])
                 \<lparr>outbox := [[126, 9, 4, 0, 0, 0, 127],
                             [126, 10] @ example_firmware 254 @ [127]],
                  is_open := True\<rparr>),
         [Device_selected_chunk_size (PInt 257), Download_progress 258 258, Print []]),
        Exit 0)"
    by (simp add: run_upgrade_def example_firmware_marker chunks len Let_def
          example_defs exchange_defs)
  have "chunk_from_file (example_firmware 254) 257 = [example_firmware 253, [0]]"
    by (simp add: chunk_from_file_step example_firmware_def)
  with run show ?thesis
    by simp
qed

text \<open>
  Claim C3, as amended. Upgrade-start is answered with status continue, and every
  upgrade-data command is answered continue except the one for the last chunk of the file,
  which is answered success. Then the session ends with \<open>sys.exit(os.EX_OK)\<close>; the frames
  written are upgrade-start and then one upgrade-data frame for each chunk of the file, in
  order, so nothing is sent after the success; every reply has been read; and the progress
  line with all bytes of the file sent is printed.
\<close>

theorem upgrade_success_on_last_chunk:
  assumes "upgrade_commands_apart P" and "upgrade_status_apart P"
    and "2 \<le> length (create_upgrade_start X 1024 (crc_ccitt X content))"
    and "\<And>chunk. 2 \<le> length (create_upgrade_data X chunk)"
    and "take 2 (drop 6 (encode_hex content)) = ''20'' \<or> force a"
    and "content \<noteq> []"
    and "open_result c" and "write_result c"
    and "inbox c = r0 # replies"
    and "upgrade_start_reply P X r0 (upgrade_continue P) cs"
    and "list_all2 (upgrade_data_reply P X) replies
           (replicate (length (chunk_from_file content 1024) - 1) (upgrade_continue P)
            @ [upgrade_success P])"
  shows "snd (run_upgrade P X (Some c) content a) = Exit 0
       \<and> map_option outbox (fst (fst (run_upgrade P X (Some c) content a)))
           = Some (outbox c @ create_upgrade_start X 1024 (crc_ccitt X content)
                     # map (create_upgrade_data X) (chunk_from_file content 1024))
       \<and> map_option inbox (fst (fst (run_upgrade P X (Some c) content a))) = Some []
       \<and> Download_progress (length content) (length content)
           \<in> set (snd (fst (run_upgrade P X (Some c) content a)))"
proof -
  let ?chunks = "chunk_from_file content 1024"
  let ?statuses = "replicate (length ?chunks - 1) (upgrade_continue P) @ [upgrade_success P]"
  let ?c1 = "exchanged c (create_upgrade_start X 1024 (crc_ccitt X content))"
  from run_upgrade_transfer [OF assms(1,3,5,7,8,9,10)]
  obtain out1 where run: "run_upgrade P X (Some c) content a
      = (case upgrade_loop P X a (length content) ?chunks 0 (Some ?c1) of
           ((comms2, out3), r) \<Rightarrow> ((comms2, out1 @ out3), r))"
    by blast
  have chunks: "?chunks \<noteq> []"
    using assms(6) by (simp add: chunk_from_file_not_Nil)
  then have n: "length ?statuses = length ?chunks"
    by (cases ?chunks) simp_all
  have ok: "\<forall>s\<in>set ?statuses. s = upgrade_continue P \<or> s = upgrade_success P"
    by auto
  have inb: "inbox ?c1 = replies @ []"
    using assms(9) by simp
  from upgrade_loop_all_ok [OF assms(1,2,4) _ _ inb assms(11) n ok, of a "length content" 0]
    assms(7,8)
  obtain c' out where loop:
    "upgrade_loop P X a (length content) ?chunks 0 (Some ?c1) = ((Some c', out), Exit 0)"
    "outbox c' = outbox ?c1 @ map (create_upgrade_data X) ?chunks"
    "inbox c' = []"
    "?chunks \<noteq> [] \<longrightarrow> Download_progress (0 + sum_list (map length ?chunks)) (length content) \<in> set out"
    by auto
  from loop(4) chunks have "Download_progress (length content) (length content) \<in> set out"
    by (simp add: sum_length_chunk_from_file)
  with loop(2,3) show ?thesis
    unfolding run loop(1) by simp
qed

theorem upgrade_success_on_last_chunk_witness:
  "snd (run_upgrade example_protocol example_externals
          (Some (example_comms [[126, 137, 0, 4, 0, 127], [126, 138, 16, 127]]))
          (example_firmware 0) example_args) = Exit 0
   \<and> map_option outbox (fst (fst (run_upgrade example_protocol example_externals
          (Some (example_comms [[126, 137, 0, 4, 0, 127], [126, 138, 16, 127]]))
          (example_firmware 0) example_args)))
       = Some [[126, 9, 4, 0, 0, 0, 127], [126, 10, 0, 0, 0, 32, 127]]
   \<and> Download_progress 4 4
       \<in> set (snd (fst (run_upgrade example_protocol example_externals
          (Some (example_comms [[126, 137, 0, 4, 0, 127], [126, 138, 16, 127]]))
          (example_firmware 0) example_args)))"
proof -
  have chunks: "chunk_from_file (example_firmware 0) 1024 = [example_firmware 0]"
    by (rule chunk_from_file_single) simp_all
  have replies: "list_all2 (upgrade_data_reply example_protocol example_externals)
      [[126, 138, 16, 127]]
      (replicate (length (chunk_from_file (example_firmware 0) 1024) - 1)
         (upgrade_continue example_protocol) @ [upgrade_success example_protocol])"
    by (simp add: chunks example_data_reply)
  have marker: "take 2 (drop 6 (encode_hex (example_firmware 0))) = ''20''
      \<or> force example_args"
    by (simp add: example_firmware_marker)
  have start: "create_upgrade_start example_externals 1024
      (crc_ccitt example_externals (example_firmware 0)) = [126, 9, 4, 0, 0, 0, 127]"
    by (simp add: example_externals_def)
  have data: "create_upgrade_data example_externals (example_firmware 0)
      = [126, 10, 0, 0, 0, 32, 127]"
    by (simp add: example_externals_def example_firmware_def)
  from upgrade_success_on_last_chunk
      [OF example_apart example_frame_lengths marker example_firmware_not_Nil
          example_comms_simps(1,2,3) example_start_reply replies]
  show ?thesis
    by (simp add: chunks start data)
qed

text \<open>
  The claim as it stands lets the success answer any one chunk. On a file of two chunks
  whose first chunk is answered success, the client goes on and sends the second chunk.
\<close>

theorem chunks_sent_after_success:
  "run_upgrade example_protocol example_externals
      (Some (example_comms [[126, 137, 0, 4, 0, 127], [126, 138, 16, 127], [126, 138, 0, 127]]))
      (example_firmware 1021) example_args
     = ((Some ((example_comms [])
                 \<lparr>outbox := [[126, 9, 4, 0, 0, 0, 127],
                             [126, 10] @ example_firmware 1020 @ [127],
                             [126, 10, 0, 127]],
                  is_open := True\<rparr>),
         [Download_progress 1024 1025, Print [], Download_progress 1025 1025]),
        Exit 0)"
proof -
  have chunks: "chunk_from_file (example_firmware 1021) 1024 = [example_firmware 1020, [0]]"
    by (simp add: chunk_from_file_step example_firmware_def)
  show ?thesis
    by (simp add: run_upgrade_def example_firmware_marker chunks Let_def
          example_defs exchange_defs)
qed

text \<open>
  Claim C6. Upgrade-start is answered with status continue, some number of upgrade-data
  commands (fewer than the file has chunks) are answered continue or success, and the next
  one is answered with any other status: a CRC, erase, flash or overflow error, or a code
  the client does not know. Then the session ends in \<open>fail\<close>; the upgrade-data frames
  written are those of the chunks up to and including the one that was answered with the
  failure, and whatever the device would have sent next is never read.
\<close>

theorem upgrade_failure_stops_transfer:
  assumes "upgrade_commands_apart P" and "upgrade_status_apart P"
    and "2 \<le> length (create_upgrade_start X 1024 (crc_ccitt X content))"
    and "\<And>chunk. 2 \<le> length (create_upgrade_data X chunk)"
    and "take 2 (drop 6 (encode_hex content)) = ''20'' \<or> force a"
    and "open_result c" and "write_result c"
    and "inbox c = r0 # replies @ rest"
    and "upgrade_start_reply P X r0 (upgrade_continue P) cs"
    and "list_all2 (upgrade_data_reply P X) replies (oks @ [bad])"
    and "length oks < length (chunk_from_file content 1024)"
    and "\<forall>s\<in>set oks. s = upgrade_continue P \<or> s = upgrade_success P"
    and "bad \<noteq> upgrade_continue P" and "bad \<noteq> upgrade_success P"
  shows "is_Fail (snd (run_upgrade P X (Some c) content a))
       \<and> map_option outbox (fst (fst (run_upgrade P X (Some c) content a)))
           = Some (outbox c @ create_upgrade_start X 1024 (crc_ccitt X content)
                     # map (create_upgrade_data X)
                         (take (Suc (length oks)) (chunk_from_file content 1024)))
       \<and> map_option inbox (fst (fst (run_upgrade P X (Some c) content a))) = Some rest"
proof -
  let ?chunks = "chunk_from_file content 1024"
  let ?c1 = "exchanged c (create_upgrade_start X 1024 (crc_ccitt X content))"
  from run_upgrade_transfer [OF assms(1,3,5,6,7,8,9)]
  obtain out1 where run: "run_upgrade P X (Some c) content a
      = (case upgrade_loop P X a (length content) ?chunks 0 (Some ?c1) of
           ((comms2, out3), r) \<Rightarrow> ((comms2, out1 @ out3), r))"
    by blast
  have inb: "inbox ?c1 = replies @ rest"
    using assms(8) by simp
  from upgrade_loop_fails [OF assms(1,2,4) _ _ inb assms(10,11,12,13,14), of a "length content" 0]
    assms(6,7)
  obtain c' where loop:
    "fst (fst (upgrade_loop P X a (length content) ?chunks 0 (Some ?c1))) = Some c'"
    "outbox c' = outbox ?c1 @ map (create_upgrade_data X) (take (Suc (length oks)) ?chunks)"
    "inbox c' = rest"
    "is_Fail (snd (upgrade_loop P X a (length content) ?chunks 0 (Some ?c1)))"
    by auto
  then show ?thesis
    unfolding run
    by (cases "upgrade_loop P X a (length content) ?chunks 0 (Some ?c1)") auto
qed

theorem upgrade_failure_stops_transfer_witness:
  "is_Fail (snd (run_upgrade example_protocol example_externals
          (Some (example_comms [[126, 137, 0, 4, 0, 127], [126, 138, 2, 127], [126, 138, 0, 127]]))
          (example_firmware 1021) example_args))
   \<and> map_option outbox (fst (fst (run_upgrade example_protocol example_externals
          (Some (example_comms [[126, 137, 0, 4, 0, 127], [126, 138, 2, 127], [126, 138, 0, 127]]))
          (example_firmware 1021) example_args)))
       = Some [[126, 9, 4, 0, 0, 0, 127], [126, 10] @ example_firmware 1020 @ [127]]
   \<and> map_option inbox (fst (fst (run_upgrade example_protocol example_externals
          (Some (example_comms [[126, 137, 0, 4, 0, 127], [126, 138, 2, 127], [126, 138, 0, 127]]))
          (example_firmware 1021) example_args)))
       = Some [[126, 138, 0, 127]]"
proof -
  have chunks: "chunk_from_file (example_firmware 1021) 1024 = [example_firmware 1020, [0]]"
    by (simp add: chunk_from_file_step example_firmware_def)
  have replies: "list_all2 (upgrade_data_reply example_protocol example_externals)
      [[126, 138, 2, 127]] ([] @ [upgrade_crc_error example_protocol])"
    by (simp add: example_data_reply)
  have marker: "take 2 (drop 6 (encode_hex (example_firmware 1021))) = ''20''
      \<or> force example_args"
    by (simp add: example_firmware_marker)
  have inb: "inbox (example_comms [[126, 137, 0, 4, 0, 127], [126, 138, 2, 127], [126, 138, 0, 127]])
      = [126, 137, 0, 4, 0, 127] # [[126, 138, 2, 127]] @ [[126, 138, 0, 127]]"
    by simp
  have n: "length ([] :: int list) < length (chunk_from_file (example_firmware 1021) 1024)"
    by (simp add: chunks)
  have oks: "\<forall>s\<in>set ([] :: int list). s = upgrade_continue example_protocol
      \<or> s = upgrade_success example_protocol"
    by simp
  have bad: "upgrade_crc_error example_protocol \<noteq> upgrade_continue example_protocol"
    "upgrade_crc_error example_protocol \<noteq> upgrade_success example_protocol"
    by (simp_all add: example_protocol_def)
  have start: "create_upgrade_start example_externals 1024
      (crc_ccitt example_externals (example_firmware 1021)) = [126, 9, 4, 0, 0, 0, 127]"
    by (simp add: example_externals_def)
  have data: "create_upgrade_data example_externals (example_firmware 1020)
      = [126, 10] @ example_firmware 1020 @ [127]"
    by (simp add: example_externals_def)
  from upgrade_failure_stops_transfer
      [OF example_apart example_frame_lengths marker example_comms_simps(1,2) inb
          example_start_reply replies n oks bad]
  show ?thesis
    by (simp add: chunks start data)
qed

section \<open>The transport across an exchange\<close>

text \<open>
  Whatever the device answers, an exchange leaves the interface with the frame appended to
  what was written, provided it opened and accepted the write, and with as many calls of
  \<open>close()\<close> as before.
\<close>

lemma communicate_interface:
  "\<exists>c'. fst (fst (communicate P X (Some c) frame a quiet)) = Some c'
        \<and> outbox c' = outbox c @ (if open_result c \<and> write_result c then [frame] else [])
        \<and> closes c' = closes c
        \<and> open_result c' = open_result c \<and> write_result c' = write_result c"
  by (auto simp: communicate_def comm_open_def comm_write_def comm_read_def Let_def
        split: prod.splits list.splits)

lemma communicate_never_closes:
  "map_option closes (fst (fst (communicate P X comms frame a quiet))) = map_option closes comms"
proof (cases comms)
  case None
  then show ?thesis by (simp add: communicate_def)
next
  case (Some c)
  from communicate_interface [of P X c frame a quiet] Some show ?thesis
    by auto
qed

text \<open>
  Claim C2, evaluated on the client: a ping that the device answers with a well-formed pong,
  and a ping answered with bytes that \<open>set_frame\<close> rejects. In both cases the interface
  is left open and \<open>close()\<close> has not been called; the second exchange ends in \<open>fail\<close>
  right after the decoding.
\<close>

theorem communicate_leaves_transport_open:
  "communicate example_protocol example_externals
      (Some (example_comms [[126, 129, 1, 127]])) [126, 1, 127] example_args False
     = ((Some ((example_comms []) \<lparr>outbox := [[126, 1, 127]], is_open := True\<rparr>),
         [Print ''Got pong from device'']),
        Inr [])
   \<and> is_open ((example_comms []) \<lparr>outbox := [[126, 1, 127]], is_open := True\<rparr>)
   \<and> closes ((example_comms []) \<lparr>outbox := [[126, 1, 127]], is_open := True\<rparr>) = 0
   \<and> communicate example_protocol example_externals
      (Some (example_comms [[1, 2, 3]])) [126, 1, 127] example_args False
     = ((Some ((example_comms []) \<lparr>outbox := [[126, 1, 127]], is_open := True\<rparr>), []),
        Inl (Fail ''protocol error (-1)''))"
  by (simp add: example_defs exchange_defs Let_def str_int_def str_nat.simps digit_char_def)

section \<open>The guard on the firmware image\<close>

text \<open>The frames written by an upgrade extend what was written before it.\<close>

lemma upgrade_loop_Cons_interface:
  "fst (fst (upgrade_loop P X a n (chunk # chunks) k comms))
     = fst (fst (communicate P X comms (create_upgrade_data X chunk) a False))
   \<or> fst (fst (upgrade_loop P X a n (chunk # chunks) k comms))
     = fst (fst (upgrade_loop P X a n chunks (k + length chunk)
                   (fst (fst (communicate P X comms (create_upgrade_data X chunk) a False)))))"
proof -
  obtain comms' out2 r
    where com: "communicate P X comms (create_upgrade_data X chunk) a False = ((comms', out2), r)"
    by (cases "communicate P X comms (create_upgrade_data X chunk) a False") auto
  obtain comms'' out3 r'
    where rest: "upgrade_loop P X a n chunks (k + length chunk) comms' = ((comms'', out3), r')"
    by (cases "upgrade_loop P X a n chunks (k + length chunk) comms'") auto
  show ?thesis
  proof (cases r)
    case (Inl e)
    then show ?thesis by (simp add: com)
  next
    case (Inr ret_dict)
    show ?thesis
    proof (cases "dict_get ret_dict ''status''")
      case (Inl e)
      then show ?thesis by (simp add: com Inr)
    next
      case st: (Inr status)
      show ?thesis
        by (cases "as_int status") (simp_all add: com Inr st rest Let_def)
    qed
  qed
qed

lemma upgrade_loop_interface:
  "\<exists>c' sent. fst (fst (upgrade_loop P X a n chunks k (Some c))) = Some c'
        \<and> outbox c' = outbox c @ sent"
proof (induction chunks arbitrary: c k)
  case Nil
  show ?case by simp
next
  case (Cons chunk chunks)
  from communicate_interface [of P X c "create_upgrade_data X chunk" a False]
  obtain c1 where c1: "fst (fst (communicate P X (Some c) (create_upgrade_data X chunk) a False)) = Some c1"
    and out: "outbox c1 = outbox c @ (if open_result c \<and> write_result c
                                      then [create_upgrade_data X chunk] else [])"
    by blast
  from Cons.IH [of "k + length chunk" c1]
  obtain c2 sent where c2: "fst (fst (upgrade_loop P X a n chunks (k + length chunk) (Some c1))) = Some c2"
    and out2: "outbox c2 = outbox c1 @ sent"
    by blast
  from upgrade_loop_Cons_interface [of P X a n chunk chunks k "Some c"]
  show ?case
    unfolding c1 c2
  proof
    assume "fst (fst (upgrade_loop P X a n (chunk # chunks) k (Some c))) = Some c1"
    with out show ?thesis by blast
  next
    assume "fst (fst (upgrade_loop P X a n (chunk # chunks) k (Some c))) = Some c2"
    with out out2 show ?thesis by auto
  qed
qed

lemma run_upgrade_interface:
  assumes "take 2 (drop 6 (encode_hex content)) = ''20'' \<or> force a"
  shows "\<exists>c1. fst (fst (communicate P X (Some c)
                          (create_upgrade_start X 1024 (crc_ccitt X content)) a False)) = Some c1
          \<and> (fst (fst (run_upgrade P X (Some c) content a)) = Some c1
             \<or> fst (fst (run_upgrade P X (Some c) content a))
                = fst (fst (upgrade_loop P X a (length content) (chunk_from_file content 1024) 0
                              (Some c1))))"
proof -
  let ?start = "create_upgrade_start X 1024 (crc_ccitt X content)"
  from communicate_interface [of P X c ?start a False]
  obtain c1 where c1: "fst (fst (communicate P X (Some c) ?start a False)) = Some c1"
    by blast
  obtain comms' out1 r where com: "communicate P X (Some c) ?start a False = ((comms', out1), r)"
    by (cases "communicate P X (Some c) ?start a False") auto
  with c1 have comms': "comms' = Some c1" by simp
  obtain comms'' out3 r'
    where loop: "upgrade_loop P X a (length content) (chunk_from_file content 1024) 0 (Some c1)
                   = ((comms'', out3), r')"
    by (cases "upgrade_loop P X a (length content) (chunk_from_file content 1024) 0 (Some c1)") auto
  have "fst (fst (run_upgrade P X (Some c) content a)) = Some c1
      \<or> fst (fst (run_upgrade P X (Some c) content a)) = comms''"
  proof (cases r)
    case (Inl e)
    with assms show ?thesis by (auto simp: run_upgrade_def com comms')
  next
    case (Inr ret_dict)
    show ?thesis
    proof (cases "dict_get ret_dict ''status''")
      case (Inl e)
      with assms show ?thesis by (auto simp: run_upgrade_def com comms' Inr)
    next
      case st: (Inr status)
      show ?thesis
        using assms
        by (cases "dict_get ret_dict ''chunk_size''")
          (auto simp: run_upgrade_def com comms' Inr st loop Let_def)
    qed
  qed
  with c1 loop show ?thesis by auto
qed

text \<open>
  The test on the hexadecimal rendering is a test on the byte at offset 3: for a file of
  bytes, characters 6 and 7 of the rendering are \<open>20\<close> exactly when the file has a fourth
  byte and it is \<open>0x20\<close>.
\<close>

lemma hex_value_cases:
  fixes x :: int
  assumes "0 \<le> x" and "x < 16"
  shows "x = 0 \<or> x = 1 \<or> x = 2 \<or> x = 3 \<or> x = 4 \<or> x = 5 \<or> x = 6 \<or> x = 7
       \<or> x = 8 \<or> x = 9 \<or> x = 10 \<or> x = 11 \<or> x = 12 \<or> x = 13 \<or> x = 14 \<or> x = 15"
  using assms by arith

lemma hex_digit_2:
  assumes "0 \<le> x" and "x < 16"
  shows "hex_digit x = CHR ''2'' \<longleftrightarrow> x = 2"
  using hex_value_cases [OF assms] by (auto simp: hex_digit_def)

lemma hex_digit_0:
  assumes "0 \<le> x" and "x < 16"
  shows "hex_digit x = CHR ''0'' \<longleftrightarrow> x = 0"
  using hex_value_cases [OF assms] by (auto simp: hex_digit_def)

lemma hex_byte_20:
  assumes "0 \<le> b" and "b < 256"
  shows "[hex_digit (b div 16), hex_digit (b mod 16)] = ''20'' \<longleftrightarrow> b = 32"
proof -
  have hi: "0 \<le> b div 16" "b div 16 < 16" and lo: "0 \<le> b mod 16" "b mod 16 < 16"
    using assms by auto
  have "b = 32 \<longleftrightarrow> b div 16 = 2 \<and> b mod 16 = 0"
    by auto
  then show ?thesis
    by (simp add: hex_digit_2 [OF hi] hex_digit_0 [OF lo])
qed

lemma firmware_marker_is_byte_3:
  assumes "\<forall>b\<in>set content. 0 \<le> b \<and> b < 256"
  shows "take 2 (drop 6 (encode_hex content)) = ''20'' \<longleftrightarrow> 3 < length content \<and> content ! 3 = 32"
proof (cases content)
  case Nil
  then show ?thesis by (simp add: encode_hex_def)
next
  case c1: (Cons b0 r1)
  show ?thesis
  proof (cases r1)
    case Nil
    with c1 show ?thesis by (simp add: encode_hex_def)
  next
    case c2: (Cons b1 r2)
    show ?thesis
    proof (cases r2)
      case Nil
      with c1 c2 show ?thesis by (simp add: encode_hex_def)
    next
      case c3: (Cons b2 r3)
      show ?thesis
      proof (cases r3)
        case Nil
        with c1 c2 c3 show ?thesis by (simp add: encode_hex_def)
      next
        case c4: (Cons b3 r4)
        from assms c1 c2 c3 c4 have "0 \<le> b3" "b3 < 256" by simp_all
        from hex_byte_20 [OF this] c1 c2 c3 c4 show ?thesis
          by (simp add: encode_hex_def)
      qed
    qed
  qed
qed

text \<open>
  Claim C8. When characters 6 to 8 of the hexadecimal rendering of the firmware image are
  not \<open>20\<close> and the force switch is off, \<open>run_upgrade\<close> ends in \<open>fail\<close> with the
  interface untouched: nothing opened, written, read or printed. When they are \<open>20\<close>, or
  the force switch is on, the upgrade-start exchange takes place: on an interface that
  opens and accepts the write, the first frame written is the upgrade-start frame for
  chunk size 1024 and the checksum of the image.
\<close>

theorem firmware_marker_guard:
  "(take 2 (drop 6 (encode_hex content)) \<noteq> ''20'' \<and> \<not> force a
      \<longrightarrow> run_upgrade P X comms content a
          = ((comms, []),
             Fail ''The firmware file does not seem valid, use --force to force upgrade''))
   \<and> ((take 2 (drop 6 (encode_hex content)) = ''20'' \<or> force a)
        \<and> comms = Some c \<and> open_result c \<and> write_result c
      \<longrightarrow> (\<exists>c' sent. fst (fst (run_upgrade P X comms content a)) = Some c'
             \<and> outbox c' = outbox c @ create_upgrade_start X 1024 (crc_ccitt X content) # sent))"
proof (intro conjI impI)
  assume "take 2 (drop 6 (encode_hex content)) \<noteq> ''20'' \<and> \<not> force a"
  then show "run_upgrade P X comms content a
      = ((comms, []), Fail ''The firmware file does not seem valid, use --force to force upgrade'')"
    by (simp add: run_upgrade_def)
next
  let ?start = "create_upgrade_start X 1024 (crc_ccitt X content)"
  assume h: "(take 2 (drop 6 (encode_hex content)) = ''20'' \<or> force a)
      \<and> comms = Some c \<and> open_result c \<and> write_result c"
  then have guard: "take 2 (drop 6 (encode_hex content)) = ''20'' \<or> force a"
    and comms: "comms = Some c" and c: "open_result c" "write_result c"
    by simp_all
  from run_upgrade_interface [OF guard, of P X c]
  obtain c1 where c1: "fst (fst (communicate P X (Some c) ?start a False)) = Some c1"
    and run: "fst (fst (run_upgrade P X (Some c) content a)) = Some c1
        \<or> fst (fst (run_upgrade P X (Some c) content a))
           = fst (fst (upgrade_loop P X a (length content) (chunk_from_file content 1024) 0
                         (Some c1)))"
    by blast
  from communicate_interface [of P X c ?start a False] c1 c
  have out1: "outbox c1 = outbox c @ [?start]"
    by auto
  from upgrade_loop_interface [of P X a "length content" "chunk_from_file content 1024" 0 c1]
  obtain c2 sent
    where c2: "fst (fst (upgrade_loop P X a (length content) (chunk_from_file content 1024) 0
                           (Some c1))) = Some c2"
      and out2: "outbox c2 = outbox c1 @ sent"
    by blast
  from run show "\<exists>c' sent. fst (fst (run_upgrade P X comms content a)) = Some c'
      \<and> outbox c' = outbox c @ ?start # sent"
    unfolding comms c2
  proof
    assume "fst (fst (run_upgrade P X (Some c) content a)) = Some c1"
    with out1 show "\<exists>c' sent. fst (fst (run_upgrade P X (Some c) content a)) = Some c'
        \<and> outbox c' = outbox c @ ?start # sent"
      by auto
  next
    assume "fst (fst (run_upgrade P X (Some c) content a)) = Some c2"
    with out1 out2 show "\<exists>c' sent. fst (fst (run_upgrade P X (Some c) content a)) = Some c'
        \<and> outbox c' = outbox c @ ?start # sent"
      by auto
  qed
qed

theorem firmware_marker_guard_witness:
  "run_upgrade example_protocol example_externals (Some (example_comms [])) [1, 2, 3, 4]
      example_args
     = ((Some (example_comms []), []),
        Fail ''The firmware file does not seem valid, use --force to force upgrade'')
   \<and> (\<exists>c' sent. fst (fst (run_upgrade example_protocol example_externals
                              (Some (example_comms [])) (example_firmware 0) example_args))
                   = Some c'
                 \<and> outbox c' = [126, 9, 4, 0, 0, 0, 127] # sent)"
proof -
  have bad: "take 2 (drop 6 (encode_hex [1, 2, 3, 4])) \<noteq> ''20'' \<and> \<not> force example_args"
    by (simp add: encode_hex_def hex_digit_def example_args_def)
  have good: "(take 2 (drop 6 (encode_hex (example_firmware 0))) = ''20'' \<or> force example_args)
      \<and> Some (example_comms []) = Some (example_comms [])
      \<and> open_result (example_comms []) \<and> write_result (example_comms [])"
    by (simp add: example_firmware_marker)
  have start: "create_upgrade_start example_externals 1024
      (crc_ccitt example_externals (example_firmware 0)) = [126, 9, 4, 0, 0, 0, 127]"
    by (simp add: example_externals_def)
  from firmware_marker_guard
         [of "[1, 2, 3, 4]" example_args example_protocol example_externals
             "Some (example_comms [])" "example_comms []"]
       firmware_marker_guard
         [of "example_firmware 0" example_args example_protocol example_externals
             "Some (example_comms [])" "example_comms []"]
       bad good
  show ?thesis
    by (simp add: start)
qed

section \<open>Discovery records are kept once per triple\<close>

text \<open>
  A decoder for evaluating the listener: a datagram of three bytes is an announce-style
  frame of the given type with one \<open>opendps\<close> service at the given port and type;
  anything else is an illegal frame.
\<close>

definition example_decode_frame :: "byte list \<Rightarrow> uhej_frame option" where
  "example_decode_frame d =
     (case d of
        [ft, p, t] \<Rightarrow>
          Some \<lparr>frame_type = ft,
                services = [\<lparr>svc_port = p, svc_type = t, service_name = ''opendps''\<rparr>]\<rparr>
      | _ \<Rightarrow> None)"

text \<open>
  Keys are only ever added to \<open>discovery_list\<close>, a key that is present is never added
  again, and the first sighting of an \<open>opendps\<close> service records its key.
\<close>

lemma key_in_iff: "key_in k d \<longleftrightarrow> k \<in> fst ` set d"
  by (simp add: key_in_def map_of_eq_None_iff)

lemma announce_services_mono:
  "key_in k (discovery_list st) \<Longrightarrow> key_in k (discovery_list (announce_services source ss st))"
  by (induction ss arbitrary: st) (auto simp: Let_def key_in_iff)

lemma announce_services_known:
  "\<forall>s\<in>set ss. key_in (discovery_key source (svc_port s) (svc_type s)) (discovery_list st)
     \<Longrightarrow> announce_services source ss st = st"
  by (induction ss arbitrary: st) (auto simp: Let_def)

lemma announce_services_records:
  "s \<in> set ss \<Longrightarrow> service_name s = ''opendps''
     \<Longrightarrow> key_in (discovery_key source (svc_port s) (svc_type s))
           (discovery_list (announce_services source ss st))"
proof (induction ss arbitrary: st)
  case Nil
  then show ?case by simp
next
  case (Cons x ss)
  show ?case
  proof (cases "s = x")
    case True
    let ?K = "discovery_key source (svc_port x) (svc_type x)"
    let ?st = "st\<lparr>discovery_list := discovery_list st @ [(?K, True)],
                     scan_output := scan_output st @ [Print source]\<rparr>"
    from True Cons.prems(2) have name: "service_name x = ''opendps''" by simp
    show ?thesis
    proof (cases "key_in ?K (discovery_list st)")
      case known: True
      from announce_services_mono [OF known, of source ss] known \<open>s = x\<close> show ?thesis
        by (simp add: Let_def)
    next
      case new: False
      have "key_in ?K (discovery_list ?st)"
        by (simp add: key_in_iff)
      from announce_services_mono [OF this, of source ss] new name \<open>s = x\<close> show ?thesis
        by (simp add: Let_def)
    qed
  next
    case False
    with Cons.prems(1) have "s \<in> set ss" by simp
    from Cons.IH [OF this Cons.prems(2)] show ?thesis
      by (simp add: Let_def)
  qed
qed

lemma announce_services_distinct:
  "distinct (map fst (discovery_list st))
     \<Longrightarrow> distinct (map fst (discovery_list (announce_services source ss st)))"
  by (induction ss arbitrary: st) (auto simp: Let_def key_in_iff)

lemma worker_pass_mono:
  "key_in k (discovery_list st) \<Longrightarrow> key_in k (discovery_list (worker_pass df A st r))"
  by (cases r) (auto simp: worker_pass_def announce_services_mono split: option.splits)

lemma worker_pass_distinct:
  "distinct (map fst (discovery_list st))
     \<Longrightarrow> distinct (map fst (discovery_list (worker_pass df A st r)))"
  by (cases r) (auto simp: worker_pass_def announce_services_distinct split: option.splits)

lemma uhej_worker_thread_append:
  "uhej_worker_thread df A st (rs @ rs')
     = uhej_worker_thread df A (uhej_worker_thread df A st rs) rs'"
  by (simp add: uhej_worker_thread_def)

lemma uhej_worker_thread_Cons:
  "uhej_worker_thread df A st (r # rs) = uhej_worker_thread df A (worker_pass df A st r) rs"
  by (simp add: uhej_worker_thread_def)

lemma uhej_worker_thread_Nil: "uhej_worker_thread df A st [] = st"
  by (simp add: uhej_worker_thread_def)

lemma uhej_worker_thread_mono:
  "key_in k (discovery_list st) \<Longrightarrow> key_in k (discovery_list (uhej_worker_thread df A st rs))"
  unfolding uhej_worker_thread_def
  by (induction rs arbitrary: st) (simp_all add: worker_pass_mono)

lemma uhej_worker_thread_distinct:
  "distinct (map fst (discovery_list st))
     \<Longrightarrow> distinct (map fst (discovery_list (uhej_worker_thread df A st rs)))"
  unfolding uhej_worker_thread_def
  by (induction rs arbitrary: st) (simp_all add: worker_pass_distinct)

text \<open>
  Claim C9. Within one scan window, which starts from the empty \<open>discovery_list\<close>, the
  keys of the records are pairwise distinct after any sequence of received datagrams: at
  most one record per (source address, port, service type). Once an announce frame from an
  address has advertised the \<open>opendps\<close> service at a port and type, a later announce frame
  from that address whose services all have this port and type leaves the records, and what
  was printed, unchanged, whatever was received in between.
\<close>

theorem discovery_deduplicated:
  assumes "decode_frame d1 = Some \<lparr>frame_type = ANNOUNCE, services = ss1\<rparr>"
    and "\<lparr>svc_port = p, svc_type = t, service_name = ''opendps''\<rparr> \<in> set ss1"
    and "decode_frame d2
           = Some \<lparr>frame_type = ANNOUNCE,
                   services = map (\<lambda>n. \<lparr>svc_port = p, svc_type = t, service_name = n\<rparr>) names\<rparr>"
  shows "distinct (map fst (discovery_list (uhej_worker_thread decode_frame ANNOUNCE scan_start rs)))
       \<and> uhej_worker_thread decode_frame ANNOUNCE scan_start
           (before @ [Datagram d1 addr port1] @ between @ [Datagram d2 addr port2])
         = uhej_worker_thread decode_frame ANNOUNCE scan_start
           (before @ [Datagram d1 addr port1] @ between)"
proof
  show "distinct (map fst (discovery_list (uhej_worker_thread decode_frame ANNOUNCE scan_start rs)))"
    by (rule uhej_worker_thread_distinct) (simp add: scan_start_def)
next
  let ?W = "uhej_worker_thread decode_frame ANNOUNCE"
  let ?K = "discovery_key addr p t"
  define s0 where "s0 = ?W scan_start before"
  define s1 where "s1 = worker_pass decode_frame ANNOUNCE s0 (Datagram d1 addr port1)"
  define s2 where "s2 = ?W s1 between"
  have "s1 = announce_services addr ss1 s0"
    by (simp add: s1_def worker_pass_def assms(1))
  with announce_services_records [OF assms(2), of addr s0]
  have "key_in ?K (discovery_list s1)"
    by simp
  then have k2: "key_in ?K (discovery_list s2)"
    unfolding s2_def by (rule uhej_worker_thread_mono)
  have "worker_pass decode_frame ANNOUNCE s2 (Datagram d2 addr port2)
      = announce_services addr
          (map (\<lambda>n. \<lparr>svc_port = p, svc_type = t, service_name = n\<rparr>) names) s2"
    by (simp add: worker_pass_def assms(3))
  also have "\<dots> = s2"
    by (rule announce_services_known) (simp add: k2)
  finally have last: "worker_pass decode_frame ANNOUNCE s2 (Datagram d2 addr port2) = s2" .
  have "?W scan_start (before @ [Datagram d1 addr port1] @ between) = s2"
    by (simp add: uhej_worker_thread_append uhej_worker_thread_Cons uhej_worker_thread_Nil
          s0_def s1_def s2_def)
  moreover have "?W scan_start (before @ [Datagram d1 addr port1] @ between @ [Datagram d2 addr port2])
      = worker_pass decode_frame ANNOUNCE s2 (Datagram d2 addr port2)"
    by (simp add: uhej_worker_thread_append uhej_worker_thread_Cons uhej_worker_thread_Nil
          s0_def s1_def s2_def)
  ultimately show "?W scan_start (before @ [Datagram d1 addr port1] @ between @ [Datagram d2 addr port2])
      = ?W scan_start (before @ [Datagram d1 addr port1] @ between)"
    using last by simp
qed

theorem discovery_deduplicated_witness:
  "example_decode_frame [0, 5005, 0]
     = Some \<lparr>frame_type = 0,
             services = [\<lparr>svc_port = 5005, svc_type = 0, service_name = ''opendps''\<rparr>]\<rparr>
   \<and> discovery_list (uhej_worker_thread example_decode_frame 0 scan_start
         [Datagram [0, 5005, 0] ''192.168.1.7'' 4096, Datagram [0, 5005, 0] ''192.168.1.7'' 4096])
     = [(''192.168.1.7:5005:0'', True)]"
proof -
  let ?svc = "\<lparr>svc_port = 5005, svc_type = 0, service_name = ''opendps''\<rparr>"
  let ?d = "Datagram [0, 5005, 0] ''192.168.1.7'' 4096"
  have d1: "example_decode_frame [0, 5005, 0] = Some \<lparr>frame_type = 0, services = [?svc]\<rparr>"
    by (simp add: example_decode_frame_def)
  have s1: "?svc \<in> set [?svc]"
    by simp
  have d2: "example_decode_frame [0, 5005, 0]
      = Some \<lparr>frame_type = 0,
              services = map (\<lambda>n. \<lparr>svc_port = 5005, svc_type = 0, service_name = n\<rparr>)
                           [''opendps'']\<rparr>"
    by (simp add: example_decode_frame_def)
  from discovery_deduplicated [where decode_frame = example_decode_frame
      and ?d1.0 = "[0, 5005, 0]" and ?d2.0 = "[0, 5005, 0]" and ANNOUNCE = 0
      and ?ss1.0 = "[?svc]" and p = 5005 and t = 0 and names = "[''opendps'']"
      and before = "[]" and between = "[]"
      and addr = "''192.168.1.7''" and ?port1.0 = 4096 and ?port2.0 = 4096, OF d1 s1 d2]
  have twice: "uhej_worker_thread example_decode_frame 0 scan_start [?d, ?d]
      = uhej_worker_thread example_decode_frame 0 scan_start [?d]"
    by simp
  have once: "discovery_list (uhej_worker_thread example_decode_frame 0 scan_start [?d])
      = [(''192.168.1.7:5005:0'', True)]"
    by (simp add: uhej_worker_thread_def worker_pass_def example_decode_frame_def scan_start_def
          discovery_key_def key_in_def str_int_def str_nat.simps digit_char_def Let_def)
  from d1 twice once show ?thesis
    by (simp only:)
qed

section \<open>What a read of the serial port returns\<close>

text \<open>
  On a port that delivers the bytes \<open>bs\<close> and then either times out or has delivered the
  end marker among them, the loop returns, and what it returns is the scan of \<open>bs\<close>.
\<close>

lemma tty_read_loop_scan:
  assumes "\<forall>j<length bs. port (i + j) = Some (bs ! j)"
    and "port (i + length bs) = None \<or> EOF \<in> set bs"
  shows "tty_read_loop SOF EOF port i bytes sof = Some (scan_bytes SOF EOF bs bytes sof)"
  using assms
proof (induction bs arbitrary: i bytes sof)
  case Nil
  then show ?case
    by (subst tty_read_loop.simps) simp
next
  case (Cons b bs)
  from Cons.prems(1) have here: "port i = Some b"
    by fastforce
  show ?case
  proof (cases "b = EOF")
    case True
    with here show ?thesis
      by (subst tty_read_loop.simps) (simp add: Let_def)
  next
    case False
    have rest: "\<forall>j<length bs. port (Suc i + j) = Some (bs ! j)"
    proof (intro allI impI)
      fix j assume "j < length bs"
      with Cons.prems(1) have "port (i + Suc j) = Some ((b # bs) ! Suc j)"
        by (metis Suc_less_eq length_Cons)
      then show "port (Suc i + j) = Some (bs ! j)"
        by simp
    qed
    from Cons.prems(2) False have stop: "port (Suc i + length bs) = None \<or> EOF \<in> set bs"
      by auto
    note IH = Cons.IH [OF rest stop]
    from here False show ?thesis
      by (subst tty_read_loop.simps) (simp add: Let_def IH)
  qed
qed

lemma port_of_prefix: "j < length bs \<Longrightarrow> port_of (bs @ cs) j = Some (bs ! j)"
  by (simp add: port_of_def nth_append)

lemma port_of_next: "port_of (bs @ c # cs) (length bs) = Some c"
  by (simp add: port_of_def)

lemma port_of_end: "port_of bs (length bs) = None"
  by (simp add: port_of_def)

lemma tty_interface_read_port_of:
  "tty_interface_read X (port_of bs)
     = Some (scan_bytes (uframe_SOF X) (uframe_EOF X) bs [] False)"
  unfolding tty_interface_read_def
  by (rule tty_read_loop_scan) (simp_all add: port_of_def)

text \<open>
  The bytes from the most recent start marker on, and nothing when there is no start marker:
  what the scan has collected after bytes that contain no end marker.
\<close>

fun since_start_marker :: "int \<Rightarrow> byte list \<Rightarrow> byte list" where
  "since_start_marker SOF [] = []"
| "since_start_marker SOF (b # bs) =
     (if SOF \<in> set bs then since_start_marker SOF bs
      else if b = SOF then b # bs else [])"

lemma since_start_marker_empty: "since_start_marker SOF bs = [] \<longleftrightarrow> SOF \<notin> set bs"
  by (induction bs) auto

lemma since_start_marker_none: "SOF \<notin> set bs \<Longrightarrow> since_start_marker SOF bs = []"
  by (simp add: since_start_marker_empty)

lemma since_start_marker_split:
  "SOF \<in> set bs \<Longrightarrow>
     \<exists>pre body. bs = pre @ SOF # body \<and> SOF \<notin> set body
                \<and> since_start_marker SOF bs = SOF # body"
proof (induction bs)
  case Nil
  then show ?case by simp
next
  case (Cons b bs)
  show ?case
  proof (cases "SOF \<in> set bs")
    case True
    from Cons.IH [OF True] obtain pre body
      where "bs = pre @ SOF # body" "SOF \<notin> set body" "since_start_marker SOF bs = SOF # body"
      by blast
    with True have "b # bs = (b # pre) @ SOF # body \<and> SOF \<notin> set body
        \<and> since_start_marker SOF (b # bs) = SOF # body"
      by simp
    then show ?thesis by blast
  next
    case False
    with Cons.prems have "b = SOF" by simp
    with False have "b # bs = [] @ SOF # bs \<and> SOF \<notin> set bs
        \<and> since_start_marker SOF (b # bs) = SOF # bs"
      by simp
    then show ?thesis by blast
  qed
qed

lemma scan_bytes_no_EOF:
  "EOF \<notin> set bs \<Longrightarrow>
     scan_bytes SOF EOF bs bytes sof
       = (if SOF \<in> set bs then since_start_marker SOF bs
          else if sof then bytes @ bs else bytes)"
  by (induction bs arbitrary: bytes sof) (auto simp: Let_def)

lemma scan_bytes_append:
  "EOF \<notin> set bs \<Longrightarrow>
     scan_bytes SOF EOF (bs @ cs) bytes sof
       = scan_bytes SOF EOF cs (scan_bytes SOF EOF bs bytes sof) (sof \<or> SOF \<in> set bs)"
  by (induction bs arbitrary: bytes sof) (auto simp: Let_def)

lemma scan_bytes_frame:
  assumes "SOF \<noteq> EOF" and "EOF \<notin> set bs"
  shows "scan_bytes SOF EOF (bs @ [EOF]) [] False
       = (if SOF \<in> set bs then since_start_marker SOF bs @ [EOF] else [])"
  using assms by (simp add: scan_bytes_append scan_bytes_no_EOF Let_def)

text \<open>
  Claim C7, as the client does it. Let the port deliver the bytes \<open>bs\<close>, none of them the
  end marker, and let the start and end markers differ. If the next byte is the end marker,
  the read stops there, whatever the port would deliver afterwards, and returns the bytes
  from the most recent start marker on followed by the end marker: one framed message,
  without the bytes that preceded its start marker; when no start marker came before the
  end marker the result is empty. If instead the next read times out, the read returns the
  bytes collected since the most recent start marker, a frame that lacks its end marker;
  that result is empty exactly when no start marker was seen.
\<close>

theorem tty_read_one_frame:
  assumes "uframe_SOF X \<noteq> uframe_EOF X"
    and "\<forall>j<length bs. port j = Some (bs ! j)"
    and "uframe_EOF X \<notin> set bs"
  shows "(port (length bs) = Some (uframe_EOF X) \<longrightarrow>
            tty_interface_read X port
              = Some (if uframe_SOF X \<in> set bs
                      then since_start_marker (uframe_SOF X) bs @ [uframe_EOF X] else []))
       \<and> (port (length bs) = None \<longrightarrow>
            tty_interface_read X port = Some (since_start_marker (uframe_SOF X) bs))
       \<and> (since_start_marker (uframe_SOF X) bs = [] \<longleftrightarrow> uframe_SOF X \<notin> set bs)"
proof (intro conjI impI)
  let ?SOF = "uframe_SOF X" and ?EOF = "uframe_EOF X"
  assume last: "port (length bs) = Some ?EOF"
  have "\<forall>j<length (bs @ [?EOF]). port (0 + j) = Some ((bs @ [?EOF]) ! j)"
    using assms(2) last by (auto simp: nth_append less_Suc_eq)
  moreover have "port (0 + length (bs @ [?EOF])) = None \<or> ?EOF \<in> set (bs @ [?EOF])"
    by simp
  ultimately have "tty_read_loop ?SOF ?EOF port 0 [] False
      = Some (scan_bytes ?SOF ?EOF (bs @ [?EOF]) [] False)"
    by (rule tty_read_loop_scan)
  with scan_bytes_frame [OF assms(1) assms(3)]
  show "tty_interface_read X port
      = Some (if ?SOF \<in> set bs then since_start_marker ?SOF bs @ [?EOF] else [])"
    by (simp add: tty_interface_read_def)
next
  let ?SOF = "uframe_SOF X" and ?EOF = "uframe_EOF X"
  assume silent: "port (length bs) = None"
  have "\<forall>j<length bs. port (0 + j) = Some (bs ! j)"
    using assms(2) by simp
  moreover have "port (0 + length bs) = None \<or> ?EOF \<in> set bs"
    using silent by simp
  ultimately have "tty_read_loop ?SOF ?EOF port 0 [] False
      = Some (scan_bytes ?SOF ?EOF bs [] False)"
    by (rule tty_read_loop_scan)
  with scan_bytes_no_EOF [OF assms(3), of ?SOF "[]" False]
  show "tty_interface_read X port = Some (since_start_marker ?SOF bs)"
    by (simp add: tty_interface_read_def since_start_marker_none)
next
  show "since_start_marker (uframe_SOF X) bs = [] \<longleftrightarrow> uframe_SOF X \<notin> set bs"
    by (rule since_start_marker_empty)
qed

theorem tty_read_one_frame_witness:
  "tty_interface_read example_externals (port_of [1, 126, 5, 126, 2, 3, 127, 9])
     = Some [126, 2, 3, 127]
   \<and> tty_interface_read example_externals (port_of [1, 126, 5, 126, 2, 3])
     = Some [126, 2, 3]
   \<and> tty_interface_read example_externals (port_of [1, 2, 3]) = Some []"
proof -
  let ?bs = "[1, 126, 5, 126, 2, 3] :: byte list"
  have markers: "uframe_SOF example_externals \<noteq> uframe_EOF example_externals"
    by (simp add: example_externals_def)
  have inside: "uframe_EOF example_externals \<notin> set ?bs"
    by (simp add: example_externals_def)
  have bytes: "\<forall>j<length ?bs. port_of (?bs @ [127, 9]) j = Some (?bs ! j)"
    by (intro allI impI port_of_prefix)
  have last: "port_of (?bs @ [127, 9]) (length ?bs) = Some (uframe_EOF example_externals)"
    by (simp add: port_of_def example_externals_def)
  note framed = tty_read_one_frame [OF markers bytes inside]
  from framed [THEN conjunct1, THEN mp, OF last]
  have first: "tty_interface_read example_externals (port_of [1, 126, 5, 126, 2, 3, 127, 9])
      = Some [126, 2, 3, 127]"
    by (simp add: example_externals_def)
  have bytes2: "\<forall>j<length ?bs. port_of ?bs j = Some (?bs ! j)"
    using port_of_prefix [of _ ?bs "[]"] by (intro allI impI) simp
  have silent: "port_of ?bs (length ?bs) = None"
    by (rule port_of_end)
  note cut = tty_read_one_frame [OF markers bytes2 inside]
  from cut [THEN conjunct2, THEN conjunct1, THEN mp, OF silent]
  have second: "tty_interface_read example_externals (port_of [1, 126, 5, 126, 2, 3])
      = Some [126, 2, 3]"
    by (simp add: example_externals_def)
  let ?cs = "[1, 2, 3] :: byte list"
  have inside3: "uframe_EOF example_externals \<notin> set ?cs"
    by (simp add: example_externals_def)
  have bytes3: "\<forall>j<length ?cs. port_of ?cs j = Some (?cs ! j)"
    using port_of_prefix [of _ ?cs "[]"] by (intro allI impI) simp
  have silent3: "port_of ?cs (length ?cs) = None"
    by (rule port_of_end)
  note noise = tty_read_one_frame [OF markers bytes3 inside3]
  from noise [THEN conjunct2, THEN conjunct1, THEN mp, OF silent3]
  have third: "tty_interface_read example_externals (port_of [1, 2, 3]) = Some []"
    by (simp add: example_externals_def)
  from first second third show ?thesis
    by (simp only: simp_thms)
qed

text \<open>
  The claim as it is written does not hold for a stream that times out inside a frame: the
  result is the part of the frame received so far, not an empty result.
\<close>

theorem partial_frame_on_timeout:
  "tty_interface_read example_externals (port_of [126, 1, 2]) = Some [126, 1, 2]"
  by (simp add: tty_interface_read_port_of example_externals_def Let_def)

text \<open>
  The loop has no bound of its own: it returns only when a read times out or delivers the
  end marker, so on a port that does neither it never returns.
\<close>

lemma tty_read_loop_returns:
  assumes "tty_read_loop SOF EOF port i bytes sof = Some r"
  shows "\<exists>j\<ge>i. port j = None \<or> port j = Some EOF"
proof (rule tty_read_loop.raw_induct
    [where P = "\<lambda>SOF EOF port i bytes sof r. \<exists>j\<ge>i. port j = None \<or> port j = Some EOF",
     OF _ assms])
  fix loop :: "int \<Rightarrow> int \<Rightarrow> serial_port \<Rightarrow> nat \<Rightarrow> byte list \<Rightarrow> bool \<Rightarrow> byte list option"
    and SOF EOF :: int and port :: serial_port and i :: nat and bytes :: "byte list"
    and sof :: bool and r :: "byte list"
  assume IH: "\<And>SOF EOF port i bytes sof r.
      loop SOF EOF port i bytes sof = Some r \<Longrightarrow> \<exists>j\<ge>i. port j = None \<or> port j = Some EOF"
    and step: "(case port i of
        None \<Rightarrow> Some bytes
      | Some b \<Rightarrow>
          (let bytes1 = (if b = SOF then [] else bytes);
               sof1 = (if b = SOF then True else sof);
               bytes2 = (if sof1 then bytes1 @ [b] else bytes1)
           in if b = EOF then Some bytes2
              else loop SOF EOF port (i + 1) bytes2 sof1)) = Some r"
  show "\<exists>j\<ge>i. port j = None \<or> port j = Some EOF"
  proof (cases "port i")
    case None
    then show ?thesis by blast
  next
    case (Some b)
    show ?thesis
    proof (cases "b = EOF")
      case True
      with Some show ?thesis by blast
    next
      case False
      with step Some obtain bytes2 sof1 where "loop SOF EOF port (i + 1) bytes2 sof1 = Some r"
        by (simp add: Let_def)
      from IH [OF this] obtain j where "i + 1 \<le> j" and "port j = None \<or> port j = Some EOF"
        by blast
      then have "i \<le> j \<and> (port j = None \<or> port j = Some EOF)"
        by simp
      then show ?thesis by blast
    qed
  qed
qed

lemma tty_interface_read_never_returns:
  assumes "\<forall>j. port j \<noteq> None \<and> port j \<noteq> Some (uframe_EOF X)"
  shows "tty_interface_read X port = None"
proof (cases "tty_interface_read X port")
  case None
  then show ?thesis .
next
  case (Some r)
  then have "tty_read_loop (uframe_SOF X) (uframe_EOF X) port 0 [] False = Some r"
    by (simp add: tty_interface_read_def)
  from tty_read_loop_returns [OF this] assms show ?thesis
    by blast
qed

end
